theory Spec2Isabelle
  imports
    Main
    "HOL-Library.FSet"
    "HOL-Library.Finite_Map"
    "HOL-Library.Sublist"
    "HOL-Library.Word"
    "HOL-Library.Char_ord"
    "HOL-Library.List_Lexorder"
begin

section \<open>Go values shared by every component\<close>

text \<open>
  A Go \<^verbatim>\<open>error\<close> is modelled by the text of \<^verbatim>\<open>err.Error()\<close>; \<^verbatim>\<open>nil\<close> is \<open>None\<close>.
  A run-time panic is the left injection of a sum, carrying the panic message.
\<close>

type_synonym error = string

text \<open>\<^verbatim>\<open>projectPbv1.ProjectUpdateResponse\<close> (project_id, issue_count int32, message).\<close>

record ProjectUpdateResponse =
  ProjectId :: string
  IssueCount :: "32 word"
  Message :: string

subsection \<open>Buffered channels on a heap\<close>

text \<open>
  A channel value is a reference; two variables may hold the same channel. Channels
  therefore live in a heap and are named by their address. \<^verbatim>\<open>make(chan T, n)\<close> takes
  the next unused address. The payload type is a parameter: the brokers never look
  inside an update.
\<close>

type_synonym chan_id = nat

record 'u chan =
  buf :: "'u list"
  cap :: nat
  closed :: bool

record 'u heap =
  chans :: "chan_id \<rightharpoonup> 'u chan"
  next_chan :: chan_id

definition empty_heap :: "'u heap" where
  "empty_heap = \<lparr>chans = Map.empty, next_chan = 0\<rparr>"

definition make_chan :: "nat \<Rightarrow> 'u heap \<Rightarrow> chan_id \<times> 'u heap" where
  "make_chan n h =
     (next_chan h,
      h\<lparr>chans := (chans h)(next_chan h \<mapsto> \<lparr>buf = [], cap = n, closed = False\<rparr>),
        next_chan := Suc (next_chan h)\<rparr>)"

text \<open>\<^verbatim>\<open>close(ch)\<close>: closing a closed channel (or a nil one) panics.\<close>

definition close_chan :: "'u heap \<Rightarrow> chan_id \<Rightarrow> string + 'u heap" where
  "close_chan h c =
     (case chans h c of
        None \<Rightarrow> Inl ''close of nil channel''
      | Some ch \<Rightarrow>
          if closed ch then Inl ''close of closed channel''
          else Inr (h\<lparr>chans := (chans h)(c \<mapsto> ch\<lparr>closed := True\<rparr>)\<rparr>))"

text \<open>
  A send can proceed when the buffer has room. A send on a closed channel can always
  proceed, and panics. An address with no channel behaves as the nil channel: a send on
  it never proceeds.
\<close>

definition send_ready :: "'u heap \<Rightarrow> chan_id \<Rightarrow> bool" where
  "send_ready h c =
     (case chans h c of None \<Rightarrow> False
      | Some ch \<Rightarrow> closed ch \<or> length (buf ch) < cap ch)"

definition do_send :: "'u heap \<Rightarrow> chan_id \<Rightarrow> 'u \<Rightarrow> string + 'u heap" where
  "do_send h c u =
     (case chans h c of
        None \<Rightarrow> Inr h
      | Some ch \<Rightarrow>
          if closed ch then Inl ''send on closed channel''
          else Inr (h\<lparr>chans := (chans h)(c \<mapsto> ch\<lparr>buf := buf ch @ [u]\<rparr>)\<rparr>))"

text \<open>A receive by the subscriber takes the oldest buffered value, if there is one.\<close>

definition recv_chan :: "'u heap \<Rightarrow> chan_id \<Rightarrow> 'u option \<times> 'u heap" where
  "recv_chan h c =
     (case chans h c of
        None \<Rightarrow> (None, h)
      | Some ch \<Rightarrow>
          (case buf ch of
             [] \<Rightarrow> (None, h)
           | u # us \<Rightarrow> (Some u, h\<lparr>chans := (chans h)(c \<mapsto> ch\<lparr>buf := us\<rparr>)\<rparr>)))"

definition buffered :: "'u heap \<Rightarrow> chan_id \<Rightarrow> 'u list" where
  "buffered h c = (case chans h c of None \<Rightarrow> [] | Some ch \<Rightarrow> buf ch)"

subsection \<open>What the Go run time decides\<close>

text \<open>
  The order in which \<^verbatim>\<open>range\<close> visits a map, the moment a context is cancelled, and the
  case a \<^verbatim>\<open>select\<close> takes when several can proceed are not fixed by the program. They
  are an input of the model. \<open>range_fset ord S\<close> visits every element of \<open>S\<close> exactly once
  for every \<open>ord\<close>: first the elements that \<open>ord\<close> lists, in that order, then the rest.
  Every enumeration of \<open>S\<close> is \<open>range_fset ord S\<close> for \<open>ord\<close> the enumeration itself.
\<close>

record sched =
  key_order :: "string list"
  chan_order :: "chan_id list"
  ctx_done :: "chan_id \<Rightarrow> bool"
  pick_done :: "chan_id \<Rightarrow> bool"
  ctx_err :: error

definition range_fset :: "'a::linorder list \<Rightarrow> 'a fset \<Rightarrow> 'a list" where
  "range_fset ord S =
     filter (\<lambda>x. x |\<in>| S) (remdups ord) @ sorted_list_of_fset (S |-| fset_of_list ord)"

text \<open>A context that is never cancelled (\<^verbatim>\<open>context.Background()\<close>), visiting in \<open>ord\<close>.\<close>

definition live :: "chan_id list \<Rightarrow> sched" where
  "live ord = \<lparr>key_order = [], chan_order = ord, ctx_done = (\<lambda>_. False),
               pick_done = (\<lambda>_. False), ctx_err = []\<rparr>"

section \<open>The in-process broker (pkg/messaging/memory)\<close>

record InMemoryBroker =
  subscribers :: "(string, chan_id fset) fmap"

definition NewInMemoryBroker :: InMemoryBroker where
  "NewInMemoryBroker = \<lparr>subscribers = fmempty\<rparr>"

text \<open>
  One turn of the loop of \<^verbatim>\<open>PublishUpdate\<close>: a \<^verbatim>\<open>select\<close> over the send, \<^verbatim>\<open>ctx.Done()\<close>
  and \<^verbatim>\<open>default\<close>. \<^verbatim>\<open>default\<close> is taken only when neither of the others can proceed;
  when both can, the run time picks one.
\<close>

datatype 'u select_result =
  SelSent "'u heap" | SelCtxDone | SelDefault | SelPanic string

definition select_send :: "bool \<Rightarrow> bool \<Rightarrow> 'u heap \<Rightarrow> chan_id \<Rightarrow> 'u \<Rightarrow> 'u select_result" where
  "select_send done pick h c u =
     (if send_ready h c \<and> \<not> (done \<and> pick) then
        (case do_send h c u of Inl p \<Rightarrow> SelPanic p | Inr h' \<Rightarrow> SelSent h')
      else if done then SelCtxDone
      else SelDefault)"

fun publish_loop :: "sched \<Rightarrow> 'u \<Rightarrow> chan_id list \<Rightarrow> 'u heap \<Rightarrow> string + ('u heap \<times> error option)" where
  "publish_loop s u [] h = Inr (h, None)"
| "publish_loop s u (c # cs) h =
     (case select_send (ctx_done s c) (pick_done s c) h c u of
        SelSent h' \<Rightarrow> publish_loop s u cs h'
      | SelCtxDone \<Rightarrow> Inr (h, Some (ctx_err s))
      | SelDefault \<Rightarrow> publish_loop s u cs h
      | SelPanic p \<Rightarrow> Inl p)"

definition memory_PublishUpdate ::
  "sched \<Rightarrow> 'u heap \<Rightarrow> InMemoryBroker \<Rightarrow> string \<Rightarrow> 'u
     \<Rightarrow> string + ('u heap \<times> InMemoryBroker \<times> error option)" where
  "memory_PublishUpdate s h b projectID update =
     (case fmlookup (subscribers b) projectID of
        Some channels \<Rightarrow>
          (case publish_loop s update (range_fset (chan_order s) channels) h of
             Inl p \<Rightarrow> Inl p
           | Inr (h', e) \<Rightarrow> Inr (h', b, e))
      | None \<Rightarrow> Inr (h, b, None))"

definition memory_Subscribe ::
  "'u heap \<Rightarrow> InMemoryBroker \<Rightarrow> string \<Rightarrow> 'u heap \<times> InMemoryBroker \<times> chan_id \<times> error option" where
  "memory_Subscribe h b projectID =
     (let (ch, h') = make_chan 10 h;
          channels = (case fmlookup (subscribers b) projectID of
                        None \<Rightarrow> {||}
                      | Some cs \<Rightarrow> cs)
      in (h', b\<lparr>subscribers := fmupd projectID (finsert ch channels) (subscribers b)\<rparr>,
          ch, None))"

text \<open>The channel argument of \<^verbatim>\<open>Unsubscribe\<close> is the blank identifier: it is not read.\<close>

definition memory_Unsubscribe ::
  "'u heap \<Rightarrow> InMemoryBroker \<Rightarrow> string \<Rightarrow> chan_id
     \<Rightarrow> 'u heap \<times> InMemoryBroker \<times> error option" where
  "memory_Unsubscribe h b projectID ch =
     (h, b\<lparr>subscribers := fmdrop projectID (subscribers b)\<rparr>, None)"

fun close_all :: "'u heap \<Rightarrow> chan_id list \<Rightarrow> string + 'u heap" where
  "close_all h [] = Inr h"
| "close_all h (c # cs) =
     (case close_chan h c of Inl p \<Rightarrow> Inl p | Inr h' \<Rightarrow> close_all h' cs)"

fun close_each ::
  "sched \<Rightarrow> (string, chan_id fset) fmap \<Rightarrow> 'u heap \<Rightarrow> string list \<Rightarrow> string + 'u heap" where
  "close_each s m h [] = Inr h"
| "close_each s m h (k # ks) =
     (case fmlookup m k of
        None \<Rightarrow> close_each s m h ks
      | Some channels \<Rightarrow>
          (case close_all h (range_fset (chan_order s) channels) of
             Inl p \<Rightarrow> Inl p
           | Inr h' \<Rightarrow> close_each s m h' ks))"

definition memory_Close ::
  "sched \<Rightarrow> 'u heap \<Rightarrow> InMemoryBroker \<Rightarrow> string + ('u heap \<times> InMemoryBroker \<times> error option)" where
  "memory_Close s h b =
     (case close_each s (subscribers b) h
             (range_fset (key_order s) (fmdom (subscribers b))) of
        Inl p \<Rightarrow> Inl p
      | Inr h' \<Rightarrow> Inr (h', b\<lparr>subscribers := fmempty\<rparr>, None))"

section \<open>Strings (packages strings and fmt)\<close>

text \<open>
  Go strings are byte sequences, as \<open>string\<close> is here. \<^verbatim>\<open>strings.ToLower\<close> is modelled on
  the ASCII letters; a byte outside \<open>A\<close>..\<open>Z\<close> is kept.
\<close>

definition lower_char :: "char \<Rightarrow> char" where
  "lower_char c =
     (if CHR ''A'' \<le> c \<and> c \<le> CHR ''Z'' then char_of (of_char c + (32::nat)) else c)"

definition ToLower :: "string \<Rightarrow> string" where
  "ToLower s = map lower_char s"

text \<open>\<^verbatim>\<open>strings.Split(s, ",")\<close>: the pieces between the separators; never the empty list.\<close>

fun Split :: "string \<Rightarrow> char \<Rightarrow> string list" where
  "Split [] sep = [[]]"
| "Split (x # xs) sep =
     (if x = sep then [] # Split xs sep
      else (case Split xs sep of
              [] \<Rightarrow> [[x]]
            | w # ws \<Rightarrow> (x # w) # ws))"

fun Contains :: "string \<Rightarrow> string \<Rightarrow> bool" where
  "Contains [] sub = (sub = [])"
| "Contains (x # xs) sub = (prefix sub (x # xs) \<or> Contains xs sub)"

text \<open>The verb \<^verbatim>\<open>%d\<close> of \<^verbatim>\<open>fmt.Sprintf\<close>.\<close>

function digits :: "nat \<Rightarrow> string" where
  "digits n =
     (if n < 10 then [''0123456789'' ! n]
      else digits (n div 10) @ [''0123456789'' ! (n mod 10)])"
  by pat_completeness auto
termination
  by (relation "measure id") auto

definition show_int :: "int \<Rightarrow> string" where
  "show_int i = (if i < 0 then CHR ''-'' # digits (nat (- i)) else digits (nat i))"

section \<open>The durable broker (pkg/messaging/kfkimp)\<close>

text \<open>
  The Kafka cluster and the protobuf codec are outside the program. What they answer is
  an input of the model: \<open>Dial a\<close> is the error of \<^verbatim>\<open>kafka.Dial("tcp", a)\<close> (\<open>None\<close>: connected),
  \<open>Controller a\<close> the answer of \<^verbatim>\<open>conn.Controller()\<close> on the connection to \<open>a\<close>,
  \<open>CreateTopics a t\<close> the error of creating topic \<open>t\<close> through the connection to \<open>a\<close>, and
  \<open>WriteMessages n key value\<close> the error of the \<open>n\<close>-th write that one call of
  \<^verbatim>\<open>PublishUpdate\<close> issues (\<open>0\<close> the first write, \<open>1\<close> the retry).
\<close>

record 'u kafka_env =
  Dial :: "string \<Rightarrow> error option"
  Controller :: "string \<Rightarrow> error + (string \<times> int)"
  CreateTopics :: "string \<Rightarrow> string \<Rightarrow> error option"
  WriteMessages :: "nat \<Rightarrow> string \<Rightarrow> string \<Rightarrow> error option"
  Marshal :: "'u \<Rightarrow> error + string"

record kafka_writer =
  w_brokers :: "string list"
  w_topic :: string

record kafka_reader =
  r_brokers :: "string list"
  r_topic :: string
  r_groupID :: string

record KafkaBroker =
  writer :: kafka_writer
  readers :: "(string, kafka_reader) fmap"
  ksubscribers :: "(string, chan_id fset) fmap"
  brokers :: "string list"
  topicPrefix :: string
  cancelled :: bool

text \<open>
  The loop of \<^verbatim>\<open>NewKafkaBroker\<close> over the configured addresses. It yields the flag
  \<^verbatim>\<open>created\<close> and the warnings it logs; every failure moves on to the next address.
\<close>

fun create_topic_loop :: "'u kafka_env \<Rightarrow> string \<Rightarrow> string list \<Rightarrow> bool \<times> string list" where
  "create_topic_loop env topicName [] = (False, [])"
| "create_topic_loop env topicName (broker # rest) =
     (case Dial env broker of
        Some err \<Rightarrow>
          (let (created, lg) = create_topic_loop env topicName rest
           in (created, ''Could not connect to Kafka broker'' # lg))
      | None \<Rightarrow>
          (case Controller env broker of
             Inl err \<Rightarrow>
               (let (created, lg) = create_topic_loop env topicName rest
                in (created, ''Failed to get Kafka controller'' # lg))
           | Inr (host, port) \<Rightarrow>
               (case Dial env (host @ '':'' @ show_int port) of
                  Some err \<Rightarrow>
                    (let (created, lg) = create_topic_loop env topicName rest
                     in (created, ''Failed to connect to Kafka controller'' # lg))
                | None \<Rightarrow>
                    (case CreateTopics env (host @ '':'' @ show_int port) topicName of
                       Some err \<Rightarrow>
                         if Contains err ''already exists'' then (True, [])
                         else create_topic_loop env topicName rest
                     | None \<Rightarrow> (True, [])))))"

definition NewKafkaBroker ::
  "'u kafka_env \<Rightarrow> string list \<Rightarrow> string \<Rightarrow> KafkaBroker option \<times> error option \<times> string list" where
  "NewKafkaBroker env brokers_arg topicPrefix_arg =
     (let topicName = topicPrefix_arg @ ''.projects'';
          (created, lg) = create_topic_loop env topicName brokers_arg;
          lg' = (if \<not> created
                 then lg @ [''Could not create topic - will try again when publishing'']
                 else lg);
          writer_new = \<lparr>w_brokers = brokers_arg, w_topic = topicName\<rparr>
      in (Some \<lparr>writer = writer_new, readers = fmempty, ksubscribers = fmempty,
                brokers = brokers_arg, topicPrefix = topicPrefix_arg, cancelled = False\<rparr>,
          None, lg'))"

text \<open>
  \<^verbatim>\<open>createTopicAndRetry\<close> yields its boolean and the messages it handed to the writer.
  \<^verbatim>\<open>k.brokers[0]\<close> panics on an empty list.
\<close>

definition createTopicAndRetry ::
  "'u kafka_env \<Rightarrow> KafkaBroker \<Rightarrow> string \<Rightarrow> string \<Rightarrow> string
     \<Rightarrow> string + (bool \<times> (string \<times> string) list)" where
  "createTopicAndRetry env k topicName projectID val =
     (case brokers k of
        [] \<Rightarrow> Inl ''index out of range [0] with length 0''
      | b0 # _ \<Rightarrow>
          (case Dial env b0 of
             Some dialErr \<Rightarrow> Inr (False, [])
           | None \<Rightarrow>
               (case Controller env b0 of
                  Inl ctrlErr \<Rightarrow> Inr (False, [])
                | Inr (host, port) \<Rightarrow>
                    (case Dial env (host @ '':'' @ show_int port) of
                       Some connErr \<Rightarrow> Inr (False, [])
                     | None \<Rightarrow>
                         (case CreateTopics env (host @ '':'' @ show_int port) topicName of
                            Some createErr \<Rightarrow> Inr (False, [])
                          | None \<Rightarrow>
                              Inr (WriteMessages env 1 projectID val = None,
                                   [(projectID, val)]))))))"

definition handlePublishError ::
  "'u kafka_env \<Rightarrow> KafkaBroker \<Rightarrow> error \<Rightarrow> string \<Rightarrow> string \<Rightarrow> string
     \<Rightarrow> string + (error option \<times> (string \<times> string) list)" where
  "handlePublishError env k err topicName projectID val =
     (if err = ''kafka: unknown topic or partition'' \<or> err = ''[3] Unknown Topic Or Partition''
      then
        (case createTopicAndRetry env k topicName projectID val of
           Inl p \<Rightarrow> Inl p
         | Inr (ok, ws) \<Rightarrow>
             if ok then Inr (None, ws)
             else Inr (Some (''failed to write message to Kafka: '' @ err), ws))
      else Inr (Some (''failed to write message to Kafka: '' @ err), []))"

text \<open>
  \<^verbatim>\<open>PublishUpdate\<close> yields the error it returns and, in order, the messages (key, value)
  it handed to \<^verbatim>\<open>writer.WriteMessages\<close>.
\<close>

definition kfkimp_PublishUpdate ::
  "'u kafka_env \<Rightarrow> KafkaBroker \<Rightarrow> string \<Rightarrow> 'u
     \<Rightarrow> string + (error option \<times> (string \<times> string) list)" where
  "kfkimp_PublishUpdate env k projectID update =
     (case Marshal env update of
        Inl err \<Rightarrow> Inr (Some (''failed to marshal project update: '' @ err), [])
      | Inr val \<Rightarrow>
          (case WriteMessages env 0 projectID val of
             Some err \<Rightarrow>
               (case handlePublishError env k err (topicPrefix k @ ''.projects'') projectID val of
                  Inl p \<Rightarrow> Inl p
                | Inr (e, ws) \<Rightarrow> Inr (e, (projectID, val) # ws))
           | None \<Rightarrow> Inr (None, [(projectID, val)])))"

text \<open>
  \<^verbatim>\<open>Subscribe\<close> of the durable broker. The two goroutines it starts are not in the state:
  the consumer of the reader is seen through \<^verbatim>\<open>distributeUpdate\<close>, which it calls for every
  message read, and the monitor of the context is \<open>Subscribe_ctx_done\<close>, which runs when the
  context is cancelled.
\<close>

definition kfkimp_Subscribe ::
  "'u heap \<Rightarrow> KafkaBroker \<Rightarrow> string \<Rightarrow> 'u heap \<times> KafkaBroker \<times> chan_id \<times> error option" where
  "kfkimp_Subscribe h k projectID =
     (let (ch, h') = make_chan 10 h;
          k1 = (case fmlookup (ksubscribers k) projectID of
                  Some _ \<Rightarrow> k
                | None \<Rightarrow>
                    (let k' = k\<lparr>ksubscribers := fmupd projectID {||} (ksubscribers k)\<rparr>
                     in case fmlookup (readers k') projectID of
                          Some _ \<Rightarrow> k'
                        | None \<Rightarrow>
                            k'\<lparr>readers :=
                                 fmupd projectID
                                   \<lparr>r_brokers = brokers k',
                                    r_topic = topicPrefix k' @ ''.projects'',
                                    r_groupID = ''issue-tracker-project-'' @ projectID\<rparr>
                                   (readers k')\<rparr>));
          channels = (case fmlookup (ksubscribers k1) projectID of
                        None \<Rightarrow> {||}
                      | Some cs \<Rightarrow> cs)
      in (h', k1\<lparr>ksubscribers := fmupd projectID (finsert ch channels) (ksubscribers k1)\<rparr>,
          ch, None))"


definition cleanupIfNoSubscribers :: "KafkaBroker \<Rightarrow> string \<Rightarrow> chan_id fset \<Rightarrow> KafkaBroker" where
  "cleanupIfNoSubscribers k projectID subs =
     (if fcard subs = 0 then
        (let k' = (case fmlookup (readers k) projectID of
                     Some reader \<Rightarrow> k\<lparr>readers := fmdrop projectID (readers k)\<rparr>
                   | None \<Rightarrow> k)
         in k'\<lparr>ksubscribers := fmdrop projectID (ksubscribers k')\<rparr>)
      else k)"

text \<open>
  \<^verbatim>\<open>Unsubscribe\<close> does not read its channel argument either: its loop deletes every
  channel that \<^verbatim>\<open>range\<close> yields.
\<close>

definition kfkimp_Unsubscribe ::
  "sched \<Rightarrow> 'u heap \<Rightarrow> KafkaBroker \<Rightarrow> string \<Rightarrow> chan_id
     \<Rightarrow> 'u heap \<times> KafkaBroker \<times> error option" where
  "kfkimp_Unsubscribe s h k projectID ch =
     (case fmlookup (ksubscribers k) projectID of
        None \<Rightarrow> (h, k, None)
      | Some subs \<Rightarrow>
          (let subs' = fold (\<lambda>subCh m. m |-| {|subCh|}) (range_fset (chan_order s) subs) subs;
               k' = k\<lparr>ksubscribers := fmupd projectID subs' (ksubscribers k)\<rparr>
           in (h, cleanupIfNoSubscribers k' projectID subs', None)))"

fun distribute_loop :: "'u \<Rightarrow> chan_id list \<Rightarrow> 'u heap \<Rightarrow> string + 'u heap" where
  "distribute_loop u [] h = Inr h"
| "distribute_loop u (c # cs) h =
     (if send_ready h c then
        (case do_send h c u of Inl p \<Rightarrow> Inl p | Inr h' \<Rightarrow> distribute_loop u cs h')
      else distribute_loop u cs h)"

definition distributeUpdate ::
  "sched \<Rightarrow> 'u heap \<Rightarrow> KafkaBroker \<Rightarrow> string \<Rightarrow> 'u \<Rightarrow> string + 'u heap" where
  "distributeUpdate s h k projectID update =
     (case fmlookup (ksubscribers k) projectID of
        Some subs \<Rightarrow> distribute_loop update (range_fset (chan_order s) subs) h
      | None \<Rightarrow> Inr h)"

section \<open>The broker factory (pkg/messaging/factory.go)\<close>

datatype MessageBroker = Memory InMemoryBroker | Kafka KafkaBroker

text \<open>The process environment is the function \<open>getenv\<close>; an unset variable reads as the empty string.\<close>

definition NewMessageBroker ::
  "(string \<Rightarrow> string) \<Rightarrow> 'u kafka_env \<Rightarrow> MessageBroker option \<times> error option \<times> string list" where
  "NewMessageBroker getenv env =
     (if ToLower (getenv ''COMMUNICATION_METHOD'') = ''kafka'' then
        (let kafkaBrokers = (if getenv ''KAFKA_BROKERS'' = [] then ''localhost:9092''
                             else getenv ''KAFKA_BROKERS'');
             topicPrefix_env = (if getenv ''KAFKA_TOPIC_PREFIX'' = [] then ''issue-tracker''
                                else getenv ''KAFKA_TOPIC_PREFIX'');
             (k, err, lg) = NewKafkaBroker env (Split kafkaBrokers CHR '','') topicPrefix_env
         in (map_option Kafka k, err, lg))
      else (Some (Memory NewInMemoryBroker), None, []))"

section \<open>The stream coordinator (pkg/svc/projectsvc/project_service.go)\<close>

text \<open>
  A variable of type \<^verbatim>\<open>chan *ProjectUpdateResponse\<close> holds a channel or \<^verbatim>\<open>nil\<close>. The
  registry of the service maps a project to a slice of such values. The repository is
  outside this component: the field \<open>repository\<close> is its method \<^verbatim>\<open>ReadProject\<close>, the only
  one the coordinator calls.
\<close>

type_synonym chan_ref = "chan_id option"

record Project =
  p_ProjectId :: string
  p_Name :: string
  p_Description :: string
  p_IssueCount :: "32 word"

record ProjectService =
  repository :: "string \<Rightarrow> error + Project"
  messageBroker :: MessageBroker
  svc_subscribers :: "(string, chan_ref list) fmap"

text \<open>
  The calls a session makes on the broker and on the registry are recorded, in order,
  next to the state, so that "torn down once" can be counted.
\<close>

datatype call =
  CallSubscribe string chan_ref
| CallUnsubscribe string chan_ref
| CallAddSubscriber string chan_ref
| CallRemoveSubscriber string chan_ref

record world =
  w_heap :: "ProjectUpdateResponse heap"
  w_svc :: ProjectService
  w_calls :: "call list"

text \<open>The local variables of \<^verbatim>\<open>StreamProjectUpdates\<close> that its goroutine shares.\<close>

record stream_vars =
  subscribedProjectID :: string
  updateCh :: chan_ref
  inMemoryCh :: chan_ref

definition commMethodKafka :: "(string \<Rightarrow> string) \<Rightarrow> bool" where
  "commMethodKafka getenv = (getenv ''COMMUNICATION_METHOD'' = ''kafka'')"

subsection \<open>Calls through the interface \<^verbatim>\<open>broker.MessageBroker\<close>\<close>

definition mb_Subscribe ::
  "'u heap \<Rightarrow> MessageBroker \<Rightarrow> string \<Rightarrow> 'u heap \<times> MessageBroker \<times> chan_id \<times> error option" where
  "mb_Subscribe h mb projectID =
     (case mb of
        Memory b \<Rightarrow> (let (h', b', ch, e) = memory_Subscribe h b projectID in (h', Memory b', ch, e))
      | Kafka k \<Rightarrow> (let (h', k', ch, e) = kfkimp_Subscribe h k projectID in (h', Kafka k', ch, e)))"

definition mb_Unsubscribe ::
  "sched \<Rightarrow> 'u heap \<Rightarrow> MessageBroker \<Rightarrow> string \<Rightarrow> chan_id
     \<Rightarrow> 'u heap \<times> MessageBroker \<times> error option" where
  "mb_Unsubscribe s h mb projectID ch =
     (case mb of
        Memory b \<Rightarrow> (let (h', b', e) = memory_Unsubscribe h b projectID ch in (h', Memory b', e))
      | Kafka k \<Rightarrow> (let (h', k', e) = kfkimp_Unsubscribe s h k projectID ch in (h', Kafka k', e)))"

subsection \<open>The registry of the service\<close>

definition addSubscriber :: "ProjectService \<Rightarrow> string \<Rightarrow> chan_ref \<Rightarrow> ProjectService" where
  "addSubscriber s projectID ch =
     s\<lparr>svc_subscribers :=
         fmupd projectID
           ((case fmlookup (svc_subscribers s) projectID of None \<Rightarrow> [] | Some cs \<Rightarrow> cs) @ [ch])
           (svc_subscribers s)\<rparr>"

text \<open>The index of the first element equal to \<open>ch\<close>, as the loop with \<^verbatim>\<open>break\<close> finds it.\<close>

fun first_index :: "'a list \<Rightarrow> 'a \<Rightarrow> nat option" where
  "first_index [] ch = None"
| "first_index (c # cs) ch =
     (if c = ch then Some 0 else map_option Suc (first_index cs ch))"

definition removeSubscriber :: "ProjectService \<Rightarrow> string \<Rightarrow> chan_ref \<Rightarrow> ProjectService" where
  "removeSubscriber s projectID ch =
     (let channels = (case fmlookup (svc_subscribers s) projectID of None \<Rightarrow> [] | Some cs \<Rightarrow> cs)
      in case first_index channels ch of
           None \<Rightarrow> s
         | Some i \<Rightarrow>
             s\<lparr>svc_subscribers :=
                 fmupd projectID (take i channels @ drop (Suc i) channels) (svc_subscribers s)\<rparr>)"

text \<open>
  \<^verbatim>\<open>notifySubscribers\<close> without Kafka: a send with \<^verbatim>\<open>default\<close> to every channel of the
  slice, in slice order. A nil channel is never ready; a closed one panics.
\<close>

fun notify_loop ::
  "ProjectUpdateResponse \<Rightarrow> chan_ref list \<Rightarrow> ProjectUpdateResponse heap
     \<Rightarrow> string + ProjectUpdateResponse heap" where
  "notify_loop u [] h = Inr h"
| "notify_loop u (None # cs) h = notify_loop u cs h"
| "notify_loop u (Some c # cs) h =
     (if send_ready h c then
        (case do_send h c u of Inl p \<Rightarrow> Inl p | Inr h' \<Rightarrow> notify_loop u cs h')
      else notify_loop u cs h)"

definition notifySubscribers ::
  "(string \<Rightarrow> string) \<Rightarrow> ProjectUpdateResponse kafka_env \<Rightarrow> sched \<Rightarrow> world \<Rightarrow> string
     \<Rightarrow> ProjectUpdateResponse \<Rightarrow> string + world" where
  "notifySubscribers getenv env s w projectID update =
     (if commMethodKafka getenv then
        (case messageBroker (w_svc w) of
           Kafka k \<Rightarrow>
             (case kfkimp_PublishUpdate env k projectID update of
                Inl p \<Rightarrow> Inl p
              | Inr _ \<Rightarrow> Inr w)
         | Memory b \<Rightarrow>
             (case memory_PublishUpdate (s\<lparr>ctx_done := (\<lambda>_. False)\<rparr>) (w_heap w) b
                     projectID update of
                Inl p \<Rightarrow> Inl p
              | Inr (h', _, _) \<Rightarrow> Inr (w\<lparr>w_heap := h'\<rparr>)))
      else
        (case fmlookup (svc_subscribers (w_svc w)) projectID of
           None \<Rightarrow> Inr w
         | Some projectSubs \<Rightarrow>
             (case notify_loop update projectSubs (w_heap w) of
                Inl p \<Rightarrow> Inl p
              | Inr h' \<Rightarrow> Inr (w\<lparr>w_heap := h'\<rparr>))))"

subsection \<open>\<^verbatim>\<open>StreamProjectUpdates\<close>\<close>

text \<open>The start of the function, up to the \<^verbatim>\<open>go\<close> statement.\<close>

definition stream_open :: "(string \<Rightarrow> string) \<Rightarrow> world \<Rightarrow> world \<times> stream_vars" where
  "stream_open getenv w =
     (if \<not> commMethodKafka getenv then
        (let (ch, h') = make_chan 10 (w_heap w)
         in (w\<lparr>w_heap := h'\<rparr>,
             \<lparr>subscribedProjectID = [], updateCh = Some ch, inMemoryCh = Some ch\<rparr>))
      else (w, \<lparr>subscribedProjectID = [], updateCh = None, inMemoryCh = None\<rparr>))"

text \<open>
  The first half of \<^verbatim>\<open>case "subscribe"\<close>: "If already subscribed, clean up first".
\<close>

definition subscribe_cleanup ::
  "(string \<Rightarrow> string) \<Rightarrow> sched \<Rightarrow> world \<Rightarrow> stream_vars \<Rightarrow> world" where
  "subscribe_cleanup getenv s w st =
     (if subscribedProjectID st \<noteq> [] then
        (if commMethodKafka getenv then
           (case updateCh st of
              Some ch \<Rightarrow>
                (let (h', mb', _) =
                       mb_Unsubscribe s (w_heap w) (messageBroker (w_svc w))
                         (subscribedProjectID st) ch
                 in w\<lparr>w_heap := h', w_svc := (w_svc w)\<lparr>messageBroker := mb'\<rparr>,
                      w_calls := w_calls w @ [CallUnsubscribe (subscribedProjectID st) (Some ch)]\<rparr>)
            | None \<Rightarrow> w)
         else
           w\<lparr>w_svc := removeSubscriber (w_svc w) (subscribedProjectID st) (inMemoryCh st),
             w_calls := w_calls w
                          @ [CallRemoveSubscriber (subscribedProjectID st) (inMemoryCh st)]\<rparr>)
      else w)"

text \<open>
  The second half: "Subscribe to project updates". The flag tells whether the goroutine
  goes on to the next \<^verbatim>\<open>Recv\<close> (it returns when \<^verbatim>\<open>Subscribe\<close> fails).
\<close>

definition subscribe_register ::
  "(string \<Rightarrow> string) \<Rightarrow> world \<Rightarrow> stream_vars \<Rightarrow> string \<Rightarrow> world \<times> stream_vars \<times> bool" where
  "subscribe_register getenv w st projectId =
     (let st1 = st\<lparr>subscribedProjectID := projectId\<rparr>
      in if commMethodKafka getenv then
           (let (h', mb', kCh, err) = mb_Subscribe (w_heap w) (messageBroker (w_svc w)) projectId;
                w' = w\<lparr>w_heap := h', w_svc := (w_svc w)\<lparr>messageBroker := mb'\<rparr>,
                       w_calls := w_calls w @ [CallSubscribe projectId (Some kCh)]\<rparr>
            in case err of
                 Some _ \<Rightarrow> (w', st1, False)
               | None \<Rightarrow> (w', st1\<lparr>updateCh := Some kCh\<rparr>, True))
         else
           (w\<lparr>w_svc := addSubscriber (w_svc w) projectId (inMemoryCh st1),
              w_calls := w_calls w @ [CallAddSubscriber projectId (inMemoryCh st1)]\<rparr>,
            st1, True))"

definition recv_subscribe ::
  "(string \<Rightarrow> string) \<Rightarrow> sched \<Rightarrow> world \<Rightarrow> stream_vars \<Rightarrow> string \<Rightarrow> world \<times> stream_vars \<times> bool" where
  "recv_subscribe getenv s w st projectId =
     subscribe_register getenv (subscribe_cleanup getenv s w st) st projectId"

text \<open>
  \<^verbatim>\<open>case "update"\<close>, and the \<^verbatim>\<open>switch\<close> on the action of a received request; any other
  action is ignored. The publish of \<^verbatim>\<open>notifySubscribers\<close> runs under
  \<^verbatim>\<open>context.Background()\<close>.
\<close>

definition recv_update ::
  "(string \<Rightarrow> string) \<Rightarrow> ProjectUpdateResponse kafka_env \<Rightarrow> sched \<Rightarrow> world \<Rightarrow> stream_vars
     \<Rightarrow> string \<Rightarrow> string + world" where
  "recv_update getenv env s w st projectId =
     (if projectId \<noteq> subscribedProjectID st then Inr w
      else (case repository (w_svc w) projectId of
              Inl err \<Rightarrow> Inr w
            | Inr project \<Rightarrow>
                notifySubscribers getenv env s w projectId
                  \<lparr>ProjectId = projectId, IssueCount = p_IssueCount project,
                   Message = ''Project '' @ projectId @ '' updated''\<rparr>))"

definition recv_request ::
  "(string \<Rightarrow> string) \<Rightarrow> ProjectUpdateResponse kafka_env \<Rightarrow> sched \<Rightarrow> world \<Rightarrow> stream_vars
     \<Rightarrow> string \<Rightarrow> string \<Rightarrow> string + (world \<times> stream_vars \<times> bool)" where
  "recv_request getenv env s w st projectId action =
     (if action = ''subscribe'' then Inr (recv_subscribe getenv s w st projectId)
      else if action = ''update'' then
        (case recv_update getenv env s w st projectId of
           Inl p \<Rightarrow> Inl p
         | Inr w' \<Rightarrow> Inr (w', st, True))
      else Inr (w, st, True))"

text \<open>
  One turn of the \<^verbatim>\<open>select\<close> of \<^verbatim>\<open>handleProjectUpdates\<close>. The event says which case fired:
  a receive from \<open>updateCh\<close> followed by a \<^verbatim>\<open>stream.Send\<close> with the given outcome, a value
  on \<^verbatim>\<open>errCh\<close> (what the receiving goroutine reported: \<open>None\<close> for \<^verbatim>\<open>io.EOF\<close>), or
  \<^verbatim>\<open>ctx.Done()\<close>. The result is the new state and, when the function returns, its return
  value. \<open>updateCh\<close>, \<open>subscribedProjectID\<close> and \<open>inMemoryCh\<close> are the arguments of the call:
  the values the variables had when \<^verbatim>\<open>StreamProjectUpdates\<close> made it.
\<close>

datatype select_event =
  EvUpdate "error option"
| EvErrCh "error option"
| EvCtxDone error

definition handleProjectUpdates_step ::
  "(string \<Rightarrow> string) \<Rightarrow> sched \<Rightarrow> world \<Rightarrow> chan_id \<Rightarrow> string \<Rightarrow> chan_ref \<Rightarrow> select_event
     \<Rightarrow> world \<times> error option option" where
  "handleProjectUpdates_step getenv s w updateCh_arg subscribedProjectID_arg inMemoryCh_arg ev =
     (case ev of
        EvErrCh err \<Rightarrow> (w, Some err)
      | EvCtxDone err \<Rightarrow> (w, Some (Some err))
      | EvUpdate sendErr \<Rightarrow>
          (case chans (w_heap w) updateCh_arg of
             None \<Rightarrow> (w, None)
           | Some ch \<Rightarrow>
               (case recv_chan (w_heap w) updateCh_arg of
                  (None, _) \<Rightarrow> if closed ch then (w, Some None) else (w, None)
                | (Some update, h') \<Rightarrow>
                    (case sendErr of
                       None \<Rightarrow> (w\<lparr>w_heap := h'\<rparr>, None)
                     | Some err \<Rightarrow>
                         (if commMethodKafka getenv then
                            (let (h'', mb', _) =
                                   mb_Unsubscribe s h' (messageBroker (w_svc w))
                                     subscribedProjectID_arg updateCh_arg
                             in (w\<lparr>w_heap := h'',
                                   w_svc := (w_svc w)\<lparr>messageBroker := mb'\<rparr>,
                                   w_calls := w_calls w
                                     @ [CallUnsubscribe subscribedProjectID_arg
                                          (Some updateCh_arg)]\<rparr>,
                                 Some (Some err)))
                          else
                            (w\<lparr>w_heap := h',
                               w_svc := removeSubscriber (w_svc w) subscribedProjectID_arg
                                          inMemoryCh_arg,
                               w_calls := w_calls w
                                 @ [CallRemoveSubscriber subscribedProjectID_arg
                                      inMemoryCh_arg]\<rparr>,
                             Some (Some err)))))))"

text \<open>The deferred \<^verbatim>\<open>close(inMemoryCh)\<close>, run when \<^verbatim>\<open>StreamProjectUpdates\<close> returns.\<close>

definition stream_return :: "world \<Rightarrow> stream_vars \<Rightarrow> string + world" where
  "stream_return w st =
     (case inMemoryCh st of
        None \<Rightarrow> Inr w
      | Some ch \<Rightarrow>
          (case close_chan (w_heap w) ch of
             Inl p \<Rightarrow> Inl p
           | Inr h' \<Rightarrow> Inr (w\<lparr>w_heap := h'\<rparr>)))"

text \<open>The projects under which the registry holds a channel, among the given ones.\<close>

definition registered_under :: "ProjectService \<Rightarrow> chan_ref \<Rightarrow> string \<Rightarrow> bool" where
  "registered_under s ch projectID =
     (case fmlookup (svc_subscribers s) projectID of
        None \<Rightarrow> False
      | Some cs \<Rightarrow> ch \<in> set cs)"

subsection \<open>The subscription a session holds\<close>

text \<open>
  With Kafka the session registers with the broker and holds the channel \<open>updateCh\<close>;
  otherwise it registers \<open>inMemoryCh\<close> in the registry of the service. \<open>active_under\<close>
  tells whether a channel is registered for a project in the registry that is in use.
\<close>

definition broker_registry :: "MessageBroker \<Rightarrow> (string, chan_id fset) fmap" where
  "broker_registry mb = (case mb of Memory b \<Rightarrow> subscribers b | Kafka k \<Rightarrow> ksubscribers k)"

definition active_under :: "(string \<Rightarrow> string) \<Rightarrow> world \<Rightarrow> chan_ref \<Rightarrow> string \<Rightarrow> bool" where
  "active_under getenv w ch projectID =
     (if commMethodKafka getenv then
        (case ch of
           None \<Rightarrow> False
         | Some c \<Rightarrow>
             (case fmlookup (broker_registry (messageBroker (w_svc w))) projectID of
                None \<Rightarrow> False
              | Some cs \<Rightarrow> c |\<in>| cs))
      else registered_under (w_svc w) ch projectID)"




subsection \<open>Sessions\<close>


text \<open>
  A session that receives a subscribe message for \<open>A\<close>, sees the updates \<open>us\<close> published
  to \<open>A\<close>, and then ends with the event \<open>ev\<close> in \<^verbatim>\<open>handleProjectUpdates\<close>.
  \<^verbatim>\<open>StreamProjectUpdates\<close> calls \<^verbatim>\<open>handleProjectUpdates\<close> while its goroutine is already
  receiving; \<open>early\<close> tells whether it read the arguments of the call before the
  goroutine handled the message (the variables as they were at the start) or after.
  With \<open>updateCh\<close> still nil it returns at once. The result is the state after the
  deferred \<^verbatim>\<open>close\<close>.
\<close>

fun notify_all ::
  "(string \<Rightarrow> string) \<Rightarrow> ProjectUpdateResponse kafka_env \<Rightarrow> sched \<Rightarrow> world \<Rightarrow> string
     \<Rightarrow> ProjectUpdateResponse list \<Rightarrow> string + world" where
  "notify_all getenv env s w projectID [] = Inr w"
| "notify_all getenv env s w projectID (u # us) =
     (case notifySubscribers getenv env s w projectID u of
        Inl p \<Rightarrow> Inl p
      | Inr w' \<Rightarrow> notify_all getenv env s w' projectID us)"

definition session_ends ::
  "(string \<Rightarrow> string) \<Rightarrow> ProjectUpdateResponse kafka_env \<Rightarrow> sched \<Rightarrow> world \<Rightarrow> string
     \<Rightarrow> bool \<Rightarrow> ProjectUpdateResponse list \<Rightarrow> select_event \<Rightarrow> string + world" where
  "session_ends getenv env s w A early us ev =
     (case stream_open getenv w of
        (w0, st0) \<Rightarrow>
          (case recv_subscribe getenv s w0 st0 A of
             (w1, st1, go1) \<Rightarrow>
               (case notify_all getenv env s w1 A us of
                  Inl p \<Rightarrow> Inl p
                | Inr w2 \<Rightarrow>
                    (let args = (if early then st0 else st1)
                     in case updateCh args of
                          None \<Rightarrow> stream_return w2 st1
                        | Some uc \<Rightarrow>
                            stream_return
                              (fst (handleProjectUpdates_step getenv s w2 uc
                                      (subscribedProjectID args) (inMemoryCh args) ev))
                              st1))))"

section \<open>Sequences of calls\<close>

subsection \<open>One subscriber, a sequence of publishes and receives\<close>



definition open_chan :: "'u heap \<Rightarrow> chan_id \<Rightarrow> bool" where
  "open_chan h c = (case chans h c of None \<Rightarrow> False | Some ch \<Rightarrow> \<not> closed ch)"


text \<open>
  What one fan-out of \<open>u\<close> does to channel \<open>d\<close>, between the heaps \<open>h\<close> and \<open>h'\<close>: the
  channel is open and either untouched or, having room, holds \<open>u\<close> as its newest value;
  when \<open>must\<close> holds and there is room, it is the latter.
\<close>

definition sent_to :: "'u heap \<Rightarrow> 'u heap \<Rightarrow> 'u \<Rightarrow> bool \<Rightarrow> chan_id \<Rightarrow> bool" where
  "sent_to h h' u must d =
     (\<exists>ch. chans h d = Some ch \<and> \<not> closed ch \<and>
        (chans h' d = Some ch \<and> \<not> (must \<and> length (buf ch) < cap ch) \<or>
         length (buf ch) < cap ch \<and> chans h' d = Some (ch\<lparr>buf := buf ch @ [u]\<rparr>)))"






subsection \<open>A burst of publishes\<close>

fun publish_seq ::
  "(sched \<times> 'u) list \<Rightarrow> 'u heap \<Rightarrow> InMemoryBroker \<Rightarrow> string
     \<Rightarrow> string + ('u heap \<times> InMemoryBroker \<times> error option list)" where
  "publish_seq [] h b projectID = Inr (h, b, [])"
| "publish_seq ((s, u) # rest) h b projectID =
     (case memory_PublishUpdate s h b projectID u of
        Inl p \<Rightarrow> Inl p
      | Inr (h', b', e) \<Rightarrow>
          (case publish_seq rest h' b' projectID of
             Inl p \<Rightarrow> Inl p
           | Inr (hf, bf, es) \<Rightarrow> Inr (hf, bf, e # es)))"

definition ctx_live :: "sched \<Rightarrow> bool" where
  "ctx_live s = (\<forall>c. \<not> ctx_done s c)"

text \<open>
  A return value that a publish may give: \<^verbatim>\<open>nil\<close>, or the error of its context when the
  context is cancelled. The updates that a burst accepted are those whose publish
  returned \<^verbatim>\<open>nil\<close>.
\<close>

definition returns_ok :: "sched \<times> 'u \<Rightarrow> error option \<Rightarrow> bool" where
  "returns_ok su r = (r = None \<or> (r = Some (ctx_err (fst su)) \<and> \<not> ctx_live (fst su)))"

definition accepted :: "(sched \<times> 'u) list \<Rightarrow> error option list \<Rightarrow> 'u list" where
  "accepted sus rs = map (\<lambda>p. snd (fst p)) (filter (\<lambda>p. snd p = None) (zip sus rs))"

subsection \<open>Any sequence of calls on the in-process broker\<close>

datatype 'u broker_op =
  OpSubscribe string
| OpPublish sched string 'u
| OpUnsubscribe string chan_id

datatype op_result =
  ResSubscribe chan_id "error option"
| ResPublish "error option"
| ResUnsubscribe "error option"

fun run_ops ::
  "'u broker_op list \<Rightarrow> 'u heap \<Rightarrow> InMemoryBroker
     \<Rightarrow> string + ('u heap \<times> InMemoryBroker \<times> op_result list)" where
  "run_ops [] h b = Inr (h, b, [])"
| "run_ops (OpSubscribe projectID # ops) h b =
     (case memory_Subscribe h b projectID of
        (h', b', ch, e) \<Rightarrow>
          (case run_ops ops h' b' of
             Inl p \<Rightarrow> Inl p
           | Inr (hf, bf, rs) \<Rightarrow> Inr (hf, bf, ResSubscribe ch e # rs)))"
| "run_ops (OpPublish s projectID u # ops) h b =
     (case memory_PublishUpdate s h b projectID u of
        Inl p \<Rightarrow> Inl p
      | Inr (h', b', e) \<Rightarrow>
          (case run_ops ops h' b' of
             Inl p \<Rightarrow> Inl p
           | Inr (hf, bf, rs) \<Rightarrow> Inr (hf, bf, ResPublish e # rs)))"
| "run_ops (OpUnsubscribe projectID ch # ops) h b =
     (case memory_Unsubscribe h b projectID ch of
        (h', b', e) \<Rightarrow>
          (case run_ops ops h' b' of
             Inl p \<Rightarrow> Inl p
           | Inr (hf, bf, rs) \<Rightarrow> Inr (hf, bf, ResUnsubscribe e # rs)))"

subsection \<open>Provisioning on publish\<close>






section \<open>Concrete states and inputs\<close>

text \<open>Small inputs on which the model is run below. Updates are numbered.\<close>

definition one_sub :: "nat heap \<times> InMemoryBroker \<times> chan_id \<times> error option" where
  "one_sub = memory_Subscribe empty_heap NewInMemoryBroker ''p1''"

definition two_subs :: "nat heap \<times> InMemoryBroker" where
  "two_subs =
     (case memory_Subscribe empty_heap NewInMemoryBroker ''p1'' of
        (h1, b1, c1, e1) \<Rightarrow>
          (case memory_Subscribe h1 b1 ''p1'' of (h2, b2, c2, e2) \<Rightarrow> (h2, b2)))"

text \<open>
  A publish whose context is cancelled after the first channel (number 0) was served:
  the \<^verbatim>\<open>select\<close> for channel 1 finds \<^verbatim>\<open>ctx.Done()\<close> ready and takes it.
\<close>

definition cancelled_midway :: sched where
  "cancelled_midway =
     \<lparr>key_order = [], chan_order = [0, 1], ctx_done = (\<lambda>c. c = 1),
      pick_done = (\<lambda>c. True), ctx_err = ''context canceled''\<rparr>"

text \<open>Live contexts; \<^verbatim>\<open>range\<close> visits project p1 first and the channels in ascending order.\<close>

definition in_order :: sched where
  "in_order =
     \<lparr>key_order = [''p1''], chan_order = [0, 1], ctx_done = (\<lambda>c. False),
      pick_done = (\<lambda>c. False), ctx_err = []\<rparr>"

definition burst :: "(sched \<times> nat) list" where
  "burst = map (Pair (live [])) [1, 2, 3, 4, 5, 6, 7, 8, 9, 10, 11, 12, 13, 14, 15]"

text \<open>The durable broker as the factory builds it by default, and its first subscriber.\<close>

definition fresh_kafka :: KafkaBroker where
  "fresh_kafka =
     \<lparr>writer = \<lparr>w_brokers = [''localhost:9092''], w_topic = ''issue-tracker.projects''\<rparr>,
      readers = fmempty, ksubscribers = fmempty, brokers = [''localhost:9092''],
      topicPrefix = ''issue-tracker'', cancelled = False\<rparr>"



definition two_ksubs :: "nat heap \<times> KafkaBroker" where
  "two_ksubs =
     (case kfkimp_Subscribe empty_heap fresh_kafka ''p1'' of
        (h1, k1, c1, e1) \<Rightarrow>
          (case kfkimp_Subscribe h1 k1 ''p1'' of (h2, k2, c2, e2) \<Rightarrow> (h2, k2)))"

text \<open>Calls made on a broker after it was closed, and the heap in which they start.\<close>

definition calls_after_close :: "nat broker_op list" where
  "calls_after_close = [OpSubscribe ''p1'', OpPublish in_order ''p1'' 7, OpUnsubscribe ''p1'' 2]"

definition both_closed :: "nat heap" where
  "both_closed =
     \<lparr>chans = [0 \<mapsto> \<lparr>buf = [], cap = 10, closed = True\<rparr>,
               1 \<mapsto> \<lparr>buf = [], cap = 10, closed = True\<rparr>], next_chan = 2\<rparr>"

text \<open>
  A configuration that selects Kafka with two nodes, and three clusters: one in which no
  connection can be made and the topic is missing, one in which the first write finds
  the topic missing and the first node creates it, and one in which the first write
  finds the topic missing and the controller answers that the topic already exists.
\<close>

definition kafka_getenv :: "string \<Rightarrow> string" where
  "kafka_getenv name =
     (if name = ''COMMUNICATION_METHOD'' then ''Kafka''
      else if name = ''KAFKA_BROKERS'' then ''kafka-1:9092,kafka-2:9092''
      else [])"

definition no_node :: "nat kafka_env" where
  "no_node =
     \<lparr>Dial = (\<lambda>a. Some ''dial tcp: connection refused''),
      Controller = (\<lambda>a. Inl ''not connected''),
      CreateTopics = (\<lambda>a t. Some ''not connected''),
      WriteMessages = (\<lambda>n key val. Some ''[3] Unknown Topic Or Partition''),
      Marshal = (\<lambda>u. Inr (replicate u CHR ''x''))\<rparr>"


definition topic_exists :: "nat kafka_env" where
  "topic_exists =
     \<lparr>Dial = (\<lambda>a. None),
      Controller = (\<lambda>a. Inr (''kafka-1'', 9092)),
      CreateTopics = (\<lambda>a t. Some ''[36] Topic Already Exists: topic already exists''),
      WriteMessages = (\<lambda>n key val. if n = 0 then Some ''[3] Unknown Topic Or Partition''
                                    else None),
      Marshal = (\<lambda>u. Inr (replicate u CHR ''x''))\<rparr>"

text \<open>
  A service that has no subscriber yet, in a process without and with
  \<^verbatim>\<open>COMMUNICATION_METHOD=kafka\<close>, an update, and a codec.
\<close>

definition stream_getenv :: "string \<Rightarrow> string" where
  "stream_getenv name = []"


definition fresh_world :: "MessageBroker \<Rightarrow> world" where
  "fresh_world mb =
     \<lparr>w_heap = empty_heap,
      w_svc = \<lparr>repository = (\<lambda>projectID. Inl ''project not found''), messageBroker = mb,
               svc_subscribers = fmempty\<rparr>,
      w_calls = []\<rparr>"

definition issue_added :: ProjectUpdateResponse where
  "issue_added =
     \<lparr>ProjectId = ''p1'', IssueCount = 3, Message = ''Issue i1 added to project p1''\<rparr>"

definition codec_only :: "ProjectUpdateResponse kafka_env" where
  "codec_only =
     \<lparr>Dial = (\<lambda>a. None),
      Controller = (\<lambda>a. Inr (''kafka-1'', 9092)),
      CreateTopics = (\<lambda>a t. None),
      WriteMessages = (\<lambda>n key val. None),
      Marshal = (\<lambda>u. Inr (ProjectId u @ Message u))\<rparr>"

text \<open>
  The state in which a session without Kafka leaves the service when it subscribed to p1
  and then ended without a teardown: its channel is closed and still registered.
\<close>

definition left_registered :: world where
  "left_registered =
     (fresh_world (Kafka fresh_kafka))
       \<lparr>w_heap := \<lparr>chans = [0 \<mapsto> \<lparr>buf = [], cap = 10, closed = True\<rparr>], next_chan = 1\<rparr>,
        w_svc := (w_svc (fresh_world (Kafka fresh_kafka)))
                   \<lparr>svc_subscribers := fmupd ''p1'' [Some 0] fmempty\<rparr>,
        w_calls := [CallAddSubscriber ''p1'' (Some 0)]\<rparr>"

text \<open>
  The channels of the registry are open channels of the heap, and no channel is
  registered for two projects.
\<close>

definition registry_wf :: "'u heap \<Rightarrow> (string, chan_id fset) fmap \<Rightarrow> bool" where
  "registry_wf h m =
     ((\<forall>p cs c. fmlookup m p = Some cs \<and> c |\<in>| cs \<longrightarrow> open_chan h c \<and> c < next_chan h) \<and>
      (\<forall>p q cs ds c. fmlookup m p = Some cs \<and> fmlookup m q = Some ds \<and> c |\<in>| cs \<and> c |\<in>| ds
         \<longrightarrow> p = q))"

text \<open>A registry in which no project is left with an empty set of channels.\<close>

definition no_dangling :: "(string, chan_id fset) fmap \<Rightarrow> bool" where
  "no_dangling m = (\<forall>projectID. fmlookup m projectID \<noteq> Some {||})"

section \<open>Facts about the run-time choices\<close>

lemma distinct_sorted_list_of_fset: "distinct (sorted_list_of_fset S)"
  by (simp add: sorted_list_of_fset.rep_eq)

lemma set_range_fset: "set (range_fset ord S) = fset S"
  by (auto simp: range_fset_def fset_of_list_elem)

lemma distinct_range_fset: "distinct (range_fset ord S)"
  by (auto simp: range_fset_def fset_of_list_elem distinct_sorted_list_of_fset)

lemma range_fset_single: "range_fset ord {|c|} = [c]"
proof -
  have "set (range_fset ord {|c|}) = {c}" by (simp add: set_range_fset)
  moreover have "distinct (range_fset ord {|c|})" by (rule distinct_range_fset)
  ultimately show ?thesis
    by (cases "range_fset ord {|c|}") (auto simp: insert_eq_iff dest!: subset_singletonD)
qed

lemma range_fset_listed:
  assumes "fset S \<subseteq> set ord"
  shows "range_fset ord S = filter (\<lambda>x. x |\<in>| S) (remdups ord)"
proof -
  have e: "S |-| fset_of_list ord = {||}"
    using assms by (simp add: less_eq_fset.rep_eq fset_of_list.rep_eq)
  show ?thesis
    unfolding range_fset_def e by (simp add: sorted_list_of_fset.rep_eq)
qed

section \<open>The in-process broker: publishing\<close>

lemma memory_PublishUpdate_broker:
  "memory_PublishUpdate s h b projectID u = Inr (h', b', e) \<Longrightarrow> b' = b"
  by (auto simp: memory_PublishUpdate_def split: option.splits sum.splits)

lemma publish_loop_err:
  "publish_loop s u cs h = Inr (h', e) \<Longrightarrow> e = None \<or> e = Some (ctx_err s)"
  by (induction cs arbitrary: h) (auto split: select_result.splits)

lemma memory_PublishUpdate_err:
  "memory_PublishUpdate s h b projectID u = Inr (h', b', e) \<Longrightarrow>
     e = None \<or> e = Some (ctx_err s)"
  by (auto simp: memory_PublishUpdate_def split: option.splits sum.splits
      dest: publish_loop_err)

lemma one_sub_eq:
  "one_sub = (\<lparr>chans = [0 \<mapsto> \<lparr>buf = [], cap = 10, closed = False\<rparr>], next_chan = 1\<rparr>,
              \<lparr>subscribers = fmupd ''p1'' {|0|} fmempty\<rparr>, 0, None)"
  by (simp add: one_sub_def memory_Subscribe_def make_chan_def empty_heap_def
      NewInMemoryBroker_def)

lemma two_subs_eq:
  "two_subs = (\<lparr>chans = [0 \<mapsto> \<lparr>buf = [], cap = 10, closed = False\<rparr>,
                          1 \<mapsto> \<lparr>buf = [], cap = 10, closed = False\<rparr>], next_chan = 2\<rparr>,
              \<lparr>subscribers = fmupd ''p1'' {|1, 0|} fmempty\<rparr>)"
  by (simp add: two_subs_def memory_Subscribe_def make_chan_def empty_heap_def
      NewInMemoryBroker_def)


lemma two_ksubs_eq:
  "two_ksubs = (\<lparr>chans = [0 \<mapsto> \<lparr>buf = [], cap = 10, closed = False\<rparr>,
                          1 \<mapsto> \<lparr>buf = [], cap = 10, closed = False\<rparr>], next_chan = 2\<rparr>,
     fresh_kafka\<lparr>readers := fmupd ''p1'' \<lparr>r_brokers = [''localhost:9092''],
                     r_topic = ''issue-tracker.projects'',
                     r_groupID = ''issue-tracker-project-p1''\<rparr> fmempty,
                 ksubscribers := fmupd ''p1'' {|1, 0|} fmempty\<rparr>)"
  by (simp add: two_ksubs_def kfkimp_Subscribe_def make_chan_def empty_heap_def fresh_kafka_def)

text \<open>
  Claim C9. Whenever \<^verbatim>\<open>PublishUpdate\<close> of the in-process broker returns, the subscriber
  registry is the one it started with: every project has the same set of channels as
  before. The call returns either \<^verbatim>\<open>nil\<close> or the error of the cancelled context, and in
  the second case it may have delivered to only some of the subscribers; the registry
  is unchanged in both cases. Only the buffers of the channels change.
\<close>

theorem PublishUpdate_registry_unchanged:
  assumes "memory_PublishUpdate s h b projectID u = Inr (h', b', e)"
  shows "subscribers b' = subscribers b \<and> (e = None \<or> e = Some (ctx_err s))"
  using memory_PublishUpdate_broker[OF assms] memory_PublishUpdate_err[OF assms] by simp

text \<open>
  The theorem at a publish to two subscribers that is cancelled after the first one was
  served: the call returns the context's error, channel 0 holds the update, channel 1
  does not, and both are still registered.
\<close>

theorem PublishUpdate_registry_unchanged_witness:
  "memory_PublishUpdate cancelled_midway (fst two_subs) (snd two_subs) ''p1'' (7::nat) =
     Inr (\<lparr>chans = [0 \<mapsto> \<lparr>buf = [7], cap = 10, closed = False\<rparr>,
                     1 \<mapsto> \<lparr>buf = [], cap = 10, closed = False\<rparr>], next_chan = 2\<rparr>,
          snd two_subs, Some ''context canceled'') \<and>
   fmlookup (subscribers (snd two_subs)) ''p1'' = Some {|0, 1|}"
proof -
  have run: "memory_PublishUpdate cancelled_midway (fst two_subs) (snd two_subs) ''p1'' (7::nat) =
     Inr (\<lparr>chans = [0 \<mapsto> \<lparr>buf = [7], cap = 10, closed = False\<rparr>,
                     1 \<mapsto> \<lparr>buf = [], cap = 10, closed = False\<rparr>], next_chan = 2\<rparr>,
          snd two_subs, Some ''context canceled'')"
    by (simp add: two_subs_eq memory_PublishUpdate_def cancelled_midway_def range_fset_listed
        select_send_def send_ready_def do_send_def fun_upd_twist)
  from PublishUpdate_registry_unchanged[OF run] show ?thesis
    using run by (auto simp: two_subs_eq)
qed

subsection \<open>A single subscriber\<close>

lemma memory_PublishUpdate_single:
  assumes "fmlookup (subscribers b) projectID = Some {|c|}"
    and "chans h c = Some ch" and "\<not> closed ch"
  shows "memory_PublishUpdate s h b projectID u =
     (if length (buf ch) < cap ch \<and> \<not> (ctx_done s c \<and> pick_done s c)
      then Inr (h\<lparr>chans := (chans h)(c \<mapsto> ch\<lparr>buf := buf ch @ [u]\<rparr>)\<rparr>, b, None)
      else if ctx_done s c then Inr (h, b, Some (ctx_err s))
      else Inr (h, b, None))"
  using assms
  by (simp add: memory_PublishUpdate_def range_fset_single select_send_def send_ready_def
      do_send_def)

lemma memory_Subscribe_first:
  assumes "fmlookup (subscribers b0) projectID = None"
    and "memory_Subscribe h0 b0 projectID = (h, b, c, e0)"
  shows "fmlookup (subscribers b) projectID = Some {|c|}"
    and "chans h c = Some \<lparr>buf = [], cap = 10, closed = False\<rparr>"
    and "e0 = None"
  using assms by (auto simp: memory_Subscribe_def make_chan_def)

lemma publish_seq_single_any:
  assumes subs: "fmlookup (subscribers b) projectID = Some {|c|}"
  shows "chans h c = Some ch \<Longrightarrow> \<not> closed ch \<Longrightarrow>
    \<exists>hf rs. publish_seq sus h b projectID = Inr (hf, b, rs) \<and>
          list_all2 returns_ok sus rs \<and>
          buffered hf c = buf ch @ take (cap ch - length (buf ch)) (accepted sus rs)"
proof (induction sus arbitrary: h ch)
  case Nil
  then show ?case by (simp add: buffered_def accepted_def)
next
  case (Cons su rest)
  obtain s u where su: "su = (s, u)" by (cases su)
  note one = memory_PublishUpdate_single[OF subs Cons.prems, of s u]
  show ?case
  proof (cases "length (buf ch) < cap ch \<and> \<not> (ctx_done s c \<and> pick_done s c)")
    case True
    let ?ch = "ch\<lparr>buf := buf ch @ [u]\<rparr>"
    let ?h = "h\<lparr>chans := (chans h)(c \<mapsto> ?ch)\<rparr>"
    have step: "memory_PublishUpdate s h b projectID u = Inr (?h, b, None)"
      using one True by simp
    have "chans ?h c = Some ?ch" "\<not> closed ?ch" using Cons.prems(2) by simp_all
    from Cons.IH[OF this] obtain hf rs where
      hf: "publish_seq rest ?h b projectID = Inr (hf, b, rs)"
          "list_all2 returns_ok rest rs"
          "buffered hf c = buf ?ch @ take (cap ?ch - length (buf ?ch)) (accepted rest rs)"
      by blast
    have "cap ch - length (buf ch) = Suc (cap ch - Suc (length (buf ch)))"
      using True by arith
    then have "buf ch @ take (cap ch - length (buf ch)) (accepted (su # rest) (None # rs)) =
        buf ?ch @ take (cap ?ch - length (buf ?ch)) (accepted rest rs)"
      by (simp add: su accepted_def)
    moreover have "returns_ok su None" by (simp add: returns_ok_def)
    ultimately show ?thesis using step hf by (simp add: su)
  next
    case False
    from Cons.IH[OF Cons.prems] obtain hf rs where
      hf: "publish_seq rest h b projectID = Inr (hf, b, rs)"
          "list_all2 returns_ok rest rs"
          "buffered hf c = buf ch @ take (cap ch - length (buf ch)) (accepted rest rs)"
      by blast
    show ?thesis
    proof (cases "ctx_done s c")
      case True
      have step: "memory_PublishUpdate s h b projectID u = Inr (h, b, Some (ctx_err s))"
        using one False True by simp
      have "returns_ok su (Some (ctx_err s))"
        using True by (auto simp: returns_ok_def su ctx_live_def)
      moreover have "accepted (su # rest) (Some (ctx_err s) # rs) = accepted rest rs"
        by (simp add: accepted_def)
      ultimately show ?thesis using step hf by (simp add: su)
    next
      case nd: False
      have full: "\<not> length (buf ch) < cap ch" using False nd by simp
      have step: "memory_PublishUpdate s h b projectID u = Inr (h, b, None)"
        using one False nd by simp
      have ok: "returns_ok su None" by (simp add: returns_ok_def)
      have z: "cap ch - length (buf ch) = 0" using full by simp
      show ?thesis using step hf ok by (simp add: su z)
    qed
  qed
qed

lemma all_live_returns:
  "list_all2 returns_ok sus rs \<Longrightarrow> list_all (\<lambda>su. ctx_live (fst su)) sus \<Longrightarrow>
     rs = replicate (length sus) None \<and> accepted sus rs = map snd sus"
  by (induction sus rs rule: list_all2_induct) (auto simp: returns_ok_def accepted_def)

text \<open>
  Claim C6. A project gets its first subscriber through \<^verbatim>\<open>Subscribe\<close>, whose channel has
  capacity 10, and nobody reads from the channel. Fifteen calls of \<^verbatim>\<open>PublishUpdate\<close> for
  that project follow. None of them panics, and each returns \<^verbatim>\<open>nil\<close> or, when its context
  is cancelled, the error of the context: a full buffer is never reported. The channel
  ends with the first ten of the updates whose publish returned \<^verbatim>\<open>nil\<close>, in publish
  order. When no context is cancelled, all fifteen calls return \<^verbatim>\<open>nil\<close> and the channel
  holds the first ten updates published; the last five are dropped without an error.
\<close>

theorem burst_of_15:
  assumes "fmlookup (subscribers b0) projectID = None"
    and "memory_Subscribe h0 b0 projectID = (h, b, c, e0)"
    and "length sus = 15"
  shows "\<exists>hf rs. publish_seq sus h b projectID = Inr (hf, b, rs) \<and>
           list_all2 returns_ok sus rs \<and>
           buffered hf c = take 10 (accepted sus rs) \<and>
           (list_all (\<lambda>su. ctx_live (fst su)) sus \<longrightarrow>
              rs = replicate 15 None \<and> buffered hf c = take 10 (map snd sus))"
proof -
  from publish_seq_single_any[OF memory_Subscribe_first(1)[OF assms(1,2)]
      memory_Subscribe_first(2)[OF assms(1,2)], of sus]
  obtain hf rs where r: "publish_seq sus h b projectID = Inr (hf, b, rs)"
    "list_all2 returns_ok sus rs" "buffered hf c = take 10 (accepted sus rs)"
    by auto
  have "list_all (\<lambda>su. ctx_live (fst su)) sus \<longrightarrow>
          rs = replicate 15 None \<and> buffered hf c = take 10 (map snd sus)"
  proof
    assume "list_all (\<lambda>su. ctx_live (fst su)) sus"
    note both = all_live_returns[OF r(2) this]
    have rs: "rs = replicate (length sus) None" by (rule conjunct1[OF both])
    have acc: "accepted sus rs = map snd sus" by (rule conjunct2[OF both])
    have "buffered hf c = take 10 (map snd sus)" by (simp only: r(3) acc)
    then show "rs = replicate 15 None \<and> buffered hf c = take 10 (map snd sus)"
      using rs assms(3) by simp
  qed
  then show ?thesis using r by blast
qed

text \<open>
  The theorem on a new broker, with the updates 1 to 15 under live contexts.
\<close>

theorem burst_of_15_witness:
  "fmlookup (subscribers NewInMemoryBroker) ''p1'' = None \<and> length burst = 15 \<and>
   list_all (\<lambda>su. ctx_live (fst su)) burst \<and>
   (\<exists>hf. publish_seq burst (fst one_sub) (fst (snd one_sub)) ''p1'' =
            Inr (hf, fst (snd one_sub), replicate 15 None) \<and>
          buffered hf 0 = [1, 2, 3, 4, 5, 6, 7, 8, 9, 10])"
proof -
  have a: "fmlookup (subscribers NewInMemoryBroker) ''p1'' = None"
    by (simp add: NewInMemoryBroker_def)
  have b: "memory_Subscribe empty_heap NewInMemoryBroker ''p1'' =
      (fst one_sub, fst (snd one_sub), 0, None)"
    using one_sub_eq by (simp add: one_sub_def)
  have c: "length burst = 15" by (simp add: burst_def)
  have d: "list_all (\<lambda>su. ctx_live (fst su)) burst"
    by (simp add: burst_def ctx_live_def live_def)
  from burst_of_15[OF a b c] d obtain hf where
    "publish_seq burst (fst one_sub) (fst (snd one_sub)) ''p1'' =
       Inr (hf, fst (snd one_sub), replicate 15 None)"
    "buffered hf 0 = take 10 (map snd burst)"
    by blast
  then show ?thesis using a c d by (auto simp: burst_def)
qed

subsection \<open>Order of delivery\<close>


lemma sent_to_cong: "chans h1 d = chans h2 d \<Longrightarrow> sent_to h1 h' u m d = sent_to h2 h' u m d"
  by (simp add: sent_to_def)

lemma select_send_open:
  assumes "chans h c = Some ch" and "\<not> closed ch"
  shows "select_send dn pk h c u =
     (if length (buf ch) < cap ch \<and> \<not> (dn \<and> pk)
      then SelSent (h\<lparr>chans := (chans h)(c \<mapsto> ch\<lparr>buf := buf ch @ [u]\<rparr>)\<rparr>)
      else if dn then SelCtxDone else SelDefault)"
  using assms by (simp add: select_send_def send_ready_def do_send_def)

lemma publish_loop_effect:
  "distinct cs \<Longrightarrow> \<forall>d \<in> set cs. open_chan h d \<Longrightarrow>
     \<exists>h' e. publish_loop s u cs h = Inr (h', e) \<and>
       (\<forall>d. d \<notin> set cs \<longrightarrow> chans h' d = chans h d) \<and>
       (\<forall>d \<in> set cs. sent_to h h' u (ctx_live s) d)"
proof (induction cs arbitrary: h)
  case Nil
  then show ?case by simp
next
  case (Cons c cs)
  from Cons.prems(2) obtain ch where ch: "chans h c = Some ch" "\<not> closed ch"
    by (auto simp: open_chan_def split: option.splits)
  have rest_open: "\<forall>d \<in> set cs. open_chan h d" using Cons.prems(2) by simp
  have dist: "distinct cs" "c \<notin> set cs" using Cons.prems(1) by simp_all
  consider (sent) "select_send (ctx_done s c) (pick_done s c) h c u =
        SelSent (h\<lparr>chans := (chans h)(c \<mapsto> ch\<lparr>buf := buf ch @ [u]\<rparr>)\<rparr>)" "length (buf ch) < cap ch"
    | (cancel) "select_send (ctx_done s c) (pick_done s c) h c u = SelCtxDone" "ctx_done s c"
    | (skip) "select_send (ctx_done s c) (pick_done s c) h c u = SelDefault"
        "\<not> length (buf ch) < cap ch"
    using select_send_open[OF ch, of "ctx_done s c" "pick_done s c" u]
    by (cases "length (buf ch) < cap ch \<and> \<not> (ctx_done s c \<and> pick_done s c)";
        cases "ctx_done s c") auto
  then show ?case
  proof cases
    case sent
    let ?h = "h\<lparr>chans := (chans h)(c \<mapsto> ch\<lparr>buf := buf ch @ [u]\<rparr>)\<rparr>"
    have "\<forall>d \<in> set cs. open_chan ?h d"
      using rest_open dist(2) by (auto simp: open_chan_def)
    from Cons.IH[OF dist(1) this] obtain h' e where
      l: "publish_loop s u cs ?h = Inr (h', e)"
      and out: "\<forall>d. d \<notin> set cs \<longrightarrow> chans h' d = chans ?h d"
      and inn: "\<forall>d \<in> set cs. sent_to ?h h' u (ctx_live s) d"
      by blast
    have "sent_to h h' u (ctx_live s) c"
      using out dist(2) ch sent(2) by (simp add: sent_to_def)
    moreover have "\<forall>d \<in> set cs. sent_to h h' u (ctx_live s) d"
    proof
      fix d assume d: "d \<in> set cs"
      then have "chans ?h d = chans h d" using dist(2) by auto
      from sent_to_cong[OF this] inn d show "sent_to h h' u (ctx_live s) d" by blast
    qed
    moreover have "\<forall>d. d \<notin> set (c # cs) \<longrightarrow> chans h' d = chans h d"
      using out by auto
    ultimately show ?thesis using l sent(1) by simp
  next
    case cancel
    have nl: "\<not> ctx_live s" using cancel(2) by (auto simp: ctx_live_def)
    have "\<forall>d \<in> set (c # cs). sent_to h h u (ctx_live s) d"
      using Cons.prems(2) nl by (auto simp: sent_to_def open_chan_def split: option.splits)
    then show ?thesis using cancel(1) by simp
  next
    case skip
    from Cons.IH[OF dist(1) rest_open] obtain h' e where
      l: "publish_loop s u cs h = Inr (h', e)"
      and out: "\<forall>d. d \<notin> set cs \<longrightarrow> chans h' d = chans h d"
      and inn: "\<forall>d \<in> set cs. sent_to h h' u (ctx_live s) d"
      by blast
    have "sent_to h h' u (ctx_live s) c"
      using out dist(2) ch skip(2) by (simp add: sent_to_def)
    moreover have "\<forall>d. d \<notin> set (c # cs) \<longrightarrow> chans h' d = chans h d"
      using out by auto
    ultimately show ?thesis using l skip(1) inn by simp
  qed
qed



lemma sent_to_open: "sent_to h h' u m d \<Longrightarrow> open_chan h' d"
  by (auto simp: sent_to_def open_chan_def)

















section \<open>The in-process broker: closing\<close>

lemma memory_Close_result:
  "memory_Close s h b = Inr (h', b', e) \<Longrightarrow> b' = NewInMemoryBroker \<and> e = None"
  by (auto simp: memory_Close_def NewInMemoryBroker_def split: sum.splits)

text \<open>
  \<^verbatim>\<open>Close\<close> panics only when it closes a channel twice. It does not on a registry whose
  channels are open and registered once, and every call keeps the registry so.
\<close>

lemma close_all_open:
  "distinct cs \<Longrightarrow> \<forall>c \<in> set cs. open_chan h c \<Longrightarrow>
     \<exists>h'. close_all h cs = Inr h' \<and> next_chan h' = next_chan h \<and>
          (\<forall>d. d \<notin> set cs \<longrightarrow> chans h' d = chans h d)"
proof (induction cs arbitrary: h)
  case Nil
  then show ?case by simp
next
  case (Cons c cs)
  obtain ch where ch: "chans h c = Some ch" "\<not> closed ch"
    using Cons.prems(2) by (auto simp: open_chan_def split: option.splits)
  let ?h = "h\<lparr>chans := (chans h)(c \<mapsto> ch\<lparr>closed := True\<rparr>)\<rparr>"
  have step: "close_chan h c = Inr ?h" using ch by (simp add: close_chan_def)
  have "\<forall>d \<in> set cs. open_chan ?h d"
    using Cons.prems by (auto simp: open_chan_def)
  from Cons.IH[OF _ this] Cons.prems(1) obtain h' where
    "close_all ?h cs = Inr h'" "next_chan h' = next_chan ?h"
    "\<forall>d. d \<notin> set cs \<longrightarrow> chans h' d = chans ?h d"
    by auto
  then show ?case using step by auto
qed

lemma close_each_wf:
  "distinct ks \<Longrightarrow>
   \<forall>p \<in> set ks. \<forall>cs c. fmlookup m p = Some cs \<and> c |\<in>| cs \<longrightarrow> open_chan h c \<Longrightarrow>
   \<forall>p q cs ds c. fmlookup m p = Some cs \<and> fmlookup m q = Some ds \<and> c |\<in>| cs \<and> c |\<in>| ds
      \<longrightarrow> p = q \<Longrightarrow>
     \<exists>h'. close_each s m h ks = Inr h'"
proof (induction ks arbitrary: h)
  case Nil
  then show ?case by simp
next
  case (Cons k ks)
  show ?case
  proof (cases "fmlookup m k")
    case None
    then show ?thesis using Cons.IH[of h] Cons.prems by simp
  next
    case (Some cs)
    let ?cs = "range_fset (chan_order s) cs"
    have "\<forall>c \<in> set ?cs. open_chan h c"
      using Cons.prems(2) Some by (simp add: set_range_fset)
    from close_all_open[OF distinct_range_fset this] obtain h' where
      h': "close_all h ?cs = Inr h'" "\<forall>d. d \<notin> set ?cs \<longrightarrow> chans h' d = chans h d"
      by blast
    have "\<forall>p \<in> set ks. \<forall>ds c. fmlookup m p = Some ds \<and> c |\<in>| ds \<longrightarrow> open_chan h' c"
    proof (intro ballI allI impI)
      fix p ds c assume p: "p \<in> set ks" and d: "fmlookup m p = Some ds \<and> c |\<in>| ds"
      have "p \<noteq> k" using p Cons.prems(1) by auto
      then have "c |\<notin>| cs" using Cons.prems(3) Some d by blast
      then have "chans h' c = chans h c" using h'(2) by (simp add: set_range_fset)
      moreover have "open_chan h c" using Cons.prems(2) p d by (meson list.set_intros(2))
      ultimately show "open_chan h' c" by (simp add: open_chan_def)
    qed
    from Cons.IH[OF _ this Cons.prems(3)] Cons.prems(1) obtain hf where
      "close_each s m h' ks = Inr hf" by auto
    then show ?thesis using Some h'(1) by simp
  qed
qed

lemma memory_Close_returns:
  assumes "registry_wf h (subscribers b)"
  shows "\<exists>h'. memory_Close s h b = Inr (h', NewInMemoryBroker, None)"
proof -
  let ?ks = "range_fset (key_order s) (fmdom (subscribers b))"
  have "\<forall>p \<in> set ?ks. \<forall>cs c. fmlookup (subscribers b) p = Some cs \<and> c |\<in>| cs \<longrightarrow> open_chan h c"
    using assms unfolding registry_wf_def by blast
  moreover have "\<forall>p q cs ds c. fmlookup (subscribers b) p = Some cs \<and>
      fmlookup (subscribers b) q = Some ds \<and> c |\<in>| cs \<and> c |\<in>| ds \<longrightarrow> p = q"
    using assms unfolding registry_wf_def by blast
  ultimately obtain h' where "close_each s (subscribers b) h ?ks = Inr h'"
    using close_each_wf[OF distinct_range_fset, of "key_order s" "fmdom (subscribers b)"
        "subscribers b" h s] by blast
  then show ?thesis by (simp add: memory_Close_def NewInMemoryBroker_def)
qed

lemma publish_loop_frame:
  "publish_loop s u cs h = Inr (h', e) \<Longrightarrow>
     next_chan h' = next_chan h \<and> (\<forall>d. open_chan h' d = open_chan h d)"
proof (induction cs arbitrary: h)
  case Nil
  then show ?case by simp
next
  case (Cons c cs)
  show ?case
  proof (cases "select_send (ctx_done s c) (pick_done s c) h c u")
    case (SelSent h1)
    then have "next_chan h1 = next_chan h \<and> (\<forall>d. open_chan h1 d = open_chan h d)"
      by (auto simp: select_send_def do_send_def open_chan_def
          split: if_splits option.splits sum.splits)
    then show ?thesis using Cons SelSent by simp
  next
    case SelCtxDone
    then show ?thesis using Cons.prems by simp
  next
    case SelDefault
    then show ?thesis using Cons by simp
  next
    case (SelPanic p)
    then show ?thesis using Cons.prems by simp
  qed
qed

lemma memory_Subscribe_wf:
  assumes "registry_wf h (subscribers b)" and "memory_Subscribe h b projectID = (h', b', c, e)"
  shows "registry_wf h' (subscribers b')"
proof -
  have h': "h' = h\<lparr>chans := (chans h)(next_chan h \<mapsto> \<lparr>buf = [], cap = 10, closed = False\<rparr>),
                   next_chan := Suc (next_chan h)\<rparr>"
    and c: "c = next_chan h"
    and b': "subscribers b' = fmupd projectID
        (finsert c (case fmlookup (subscribers b) projectID of None \<Rightarrow> {||} | Some cs \<Rightarrow> cs))
        (subscribers b)"
    using assms(2) by (auto simp: memory_Subscribe_def make_chan_def)
  have oldo: "\<And>p cs d. fmlookup (subscribers b) p = Some cs \<Longrightarrow> d |\<in>| cs \<Longrightarrow> open_chan h d"
    using assms(1) unfolding registry_wf_def by blast
  have oldn: "\<And>p cs d. fmlookup (subscribers b) p = Some cs \<Longrightarrow> d |\<in>| cs \<Longrightarrow> d < next_chan h"
    using assms(1) unfolding registry_wf_def by blast
  have uniq: "\<And>p q cs ds d. fmlookup (subscribers b) p = Some cs \<Longrightarrow>
      fmlookup (subscribers b) q = Some ds \<Longrightarrow> d |\<in>| cs \<Longrightarrow> d |\<in>| ds \<Longrightarrow> p = q"
    using assms(1) unfolding registry_wf_def by blast
  have keep: "\<And>d. open_chan h d \<Longrightarrow> d < next_chan h \<Longrightarrow> open_chan h' d"
    by (auto simp: h' open_chan_def)
  have new: "open_chan h' c" by (simp add: h' c open_chan_def)
  have nx: "next_chan h' = Suc (next_chan h)" by (simp add: h')
  have mem: "\<And>p cs d. fmlookup (subscribers b') p = Some cs \<Longrightarrow> d |\<in>| cs \<Longrightarrow>
      d = c \<and> p = projectID \<or> (\<exists>cs0. fmlookup (subscribers b) p = Some cs0 \<and> d |\<in>| cs0)"
    unfolding b' by (auto split: if_splits option.splits)
  have A: "\<And>p cs d. fmlookup (subscribers b') p = Some cs \<and> d |\<in>| cs \<Longrightarrow>
      open_chan h' d \<and> d < next_chan h'"
  proof -
    fix p cs d assume a: "fmlookup (subscribers b') p = Some cs \<and> d |\<in>| cs"
    from mem[of p cs d] a consider "d = c" | cs0 where "fmlookup (subscribers b) p = Some cs0" "d |\<in>| cs0"
      by blast
    then show "open_chan h' d \<and> d < next_chan h'"
    proof cases
      case 1
      then show ?thesis using new nx c by simp
    next
      case 2
      have "open_chan h d" "d < next_chan h" using oldo[OF 2] oldn[OF 2] by simp_all
      then show ?thesis using keep nx by simp
    qed
  qed
  have B: "\<And>p q cs ds d. fmlookup (subscribers b') p = Some cs \<and>
      fmlookup (subscribers b') q = Some ds \<and> d |\<in>| cs \<and> d |\<in>| ds \<Longrightarrow> p = q"
  proof -
    fix p q cs ds d
    assume a: "fmlookup (subscribers b') p = Some cs \<and> fmlookup (subscribers b') q = Some ds \<and>
      d |\<in>| cs \<and> d |\<in>| ds"
    have fresh: "\<And>r cs0. fmlookup (subscribers b) r = Some cs0 \<Longrightarrow> c |\<notin>| cs0"
      using oldn c by blast
    from mem[of p cs d] a have P: "d = c \<and> p = projectID \<or>
        (\<exists>cs0. fmlookup (subscribers b) p = Some cs0 \<and> d |\<in>| cs0)" by blast
    from mem[of q ds d] a have Q: "d = c \<and> q = projectID \<or>
        (\<exists>cs0. fmlookup (subscribers b) q = Some cs0 \<and> d |\<in>| cs0)" by blast
    show "p = q"
      using P Q fresh uniq by blast
  qed
  show ?thesis
    unfolding registry_wf_def using A B by blast
qed

lemma memory_Unsubscribe_wf:
  assumes "registry_wf h (subscribers b)"
  shows "registry_wf h (subscribers (fst (snd (memory_Unsubscribe h b projectID ch))))"
  using assms unfolding registry_wf_def memory_Unsubscribe_def
  by (auto split: if_splits)

lemma memory_PublishUpdate_wf:
  assumes "registry_wf h (subscribers b)"
    and "memory_PublishUpdate s h b projectID u = Inr (h', b', e)"
  shows "registry_wf h' (subscribers b')"
proof -
  have b': "b' = b" using memory_PublishUpdate_broker[OF assms(2)] .
  have fr: "next_chan h' = next_chan h \<and> (\<forall>d. open_chan h' d = open_chan h d)"
  proof (cases "fmlookup (subscribers b) projectID")
    case None
    then show ?thesis using assms(2) by (simp add: memory_PublishUpdate_def)
  next
    case (Some cs)
    then have "publish_loop s u (range_fset (chan_order s) cs) h = Inr (h', e)"
      using assms(2) by (auto simp: memory_PublishUpdate_def split: sum.splits)
    then show ?thesis by (rule publish_loop_frame)
  qed
  show ?thesis using assms(1) fr unfolding registry_wf_def b' by simp
qed

lemma memory_PublishUpdate_returns:
  assumes "registry_wf h (subscribers b)"
  shows "\<exists>h' e. memory_PublishUpdate s h b projectID u = Inr (h', b, e)"
proof (cases "fmlookup (subscribers b) projectID")
  case None
  then show ?thesis by (simp add: memory_PublishUpdate_def)
next
  case (Some cs)
  have "\<forall>d \<in> set (range_fset (chan_order s) cs). open_chan h d"
    using assms Some unfolding registry_wf_def by (auto simp: set_range_fset)
  from publish_loop_effect[OF distinct_range_fset this]
  obtain h' e where "publish_loop s u (range_fset (chan_order s) cs) h = Inr (h', e)"
    by blast
  then show ?thesis using Some by (simp add: memory_PublishUpdate_def)
qed

lemma run_ops_returns:
  "registry_wf h (subscribers b) \<Longrightarrow>
     \<exists>hf bf rs. run_ops ops h b = Inr (hf, bf, rs) \<and> registry_wf hf (subscribers bf)"
proof (induction ops arbitrary: h b)
  case Nil
  then show ?case by simp
next
  case (Cons op ops)
  show ?case
  proof (cases op)
    case (OpSubscribe projectID)
    obtain h' b' ch e where sub: "memory_Subscribe h b projectID = (h', b', ch, e)"
      by (metis prod_cases4)
    from Cons.IH[OF memory_Subscribe_wf[OF Cons.prems sub]]
    obtain hf bf rs where "run_ops ops h' b' = Inr (hf, bf, rs)" "registry_wf hf (subscribers bf)"
      by blast
    then show ?thesis using sub OpSubscribe by simp
  next
    case (OpPublish s projectID u)
    from memory_PublishUpdate_returns[OF Cons.prems]
    obtain h' e where pub: "memory_PublishUpdate s h b projectID u = Inr (h', b, e)"
      by blast
    from Cons.IH[OF memory_PublishUpdate_wf[OF Cons.prems pub]]
    obtain hf bf rs where "run_ops ops h' b = Inr (hf, bf, rs)" "registry_wf hf (subscribers bf)"
      by blast
    then show ?thesis using pub OpPublish by simp
  next
    case (OpUnsubscribe projectID ch)
    obtain h' b' e where un: "memory_Unsubscribe h b projectID ch = (h', b', e)"
      by (metis prod_cases3)
    have "registry_wf h' (subscribers b')"
      using memory_Unsubscribe_wf[OF Cons.prems, of projectID ch] un
      by (auto simp: memory_Unsubscribe_def)
    from Cons.IH[OF this]
    obtain hf bf rs where "run_ops ops h' b' = Inr (hf, bf, rs)" "registry_wf hf (subscribers bf)"
      by blast
    then show ?thesis using un OpUnsubscribe by simp
  qed
qed

lemma registry_wf_new: "registry_wf h (subscribers NewInMemoryBroker)"
  by (simp add: registry_wf_def NewInMemoryBroker_def)

text \<open>
  Claim C10. When \<^verbatim>\<open>Close\<close> of the in-process broker returns, it returns \<^verbatim>\<open>nil\<close>, the
  subscriber registry is the empty map, and the broker is usable: every sequence of
  \<^verbatim>\<open>Subscribe\<close>, \<^verbatim>\<open>PublishUpdate\<close> and \<^verbatim>\<open>Unsubscribe\<close> calls made on it from then on gives the
  results and the final state that the same sequence gives on a broker that
  \<^verbatim>\<open>NewInMemoryBroker\<close> has just built. \<^verbatim>\<open>Close\<close> does return when the registered channels are
  open and each is registered for one project, as they are after any calls on a new
  broker, and the calls made after it return too.
\<close>

theorem Close_is_a_reset:
  "(memory_Close s h b = Inr (h', b', e) \<longrightarrow>
      subscribers b' = fmempty \<and> e = None \<and>
      run_ops ops h' b' = run_ops ops h' NewInMemoryBroker) \<and>
   (registry_wf h (subscribers b) \<longrightarrow>
      (\<exists>hc. memory_Close s h b = Inr (hc, NewInMemoryBroker, None) \<and>
            (\<exists>hf bf rs. run_ops ops hc NewInMemoryBroker = Inr (hf, bf, rs))))"
proof (intro conjI impI)
  assume c: "memory_Close s h b = Inr (h', b', e)"
  show "subscribers b' = fmempty" "e = None"
    "run_ops ops h' b' = run_ops ops h' NewInMemoryBroker"
    using memory_Close_result[OF c] by (simp_all add: NewInMemoryBroker_def)
next
  assume wf: "registry_wf h (subscribers b)"
  from memory_Close_returns[OF wf] obtain hc where
    hc: "memory_Close s h b = Inr (hc, NewInMemoryBroker, None)" by blast
  from run_ops_returns[OF registry_wf_new, of ops hc] hc
  show "\<exists>hc. memory_Close s h b = Inr (hc, NewInMemoryBroker, None) \<and>
            (\<exists>hf bf rs. run_ops ops hc NewInMemoryBroker = Inr (hf, bf, rs))"
    by blast
qed

text \<open>
  The theorem on a broker with two subscribers of project p1: \<^verbatim>\<open>Close\<close> closes both
  channels and empties the registry; a subscribe, a publish and an unsubscribe made
  afterwards work as on a new broker.
\<close>

theorem Close_is_a_reset_witness:
  "memory_Close in_order (fst two_subs) (snd two_subs) =
     Inr (both_closed, \<lparr>subscribers = fmempty\<rparr>, None) \<and>
   run_ops calls_after_close both_closed \<lparr>subscribers = fmempty\<rparr> =
     run_ops calls_after_close both_closed NewInMemoryBroker \<and>
   run_ops calls_after_close both_closed NewInMemoryBroker =
     Inr (\<lparr>chans = [0 \<mapsto> \<lparr>buf = [], cap = 10, closed = True\<rparr>,
                     1 \<mapsto> \<lparr>buf = [], cap = 10, closed = True\<rparr>,
                     2 \<mapsto> \<lparr>buf = [7], cap = 10, closed = False\<rparr>], next_chan = 3\<rparr>,
          NewInMemoryBroker,
          [ResSubscribe 2 None, ResPublish None, ResUnsubscribe None]) \<and>
   (\<exists>hc. memory_Close in_order (fst two_subs) (snd two_subs) =
           Inr (hc, NewInMemoryBroker, None) \<and>
         (\<exists>hf bf rs. run_ops calls_after_close hc NewInMemoryBroker = Inr (hf, bf, rs)))"
proof -
  have c: "memory_Close in_order (fst two_subs) (snd two_subs) =
     Inr (both_closed, \<lparr>subscribers = fmempty\<rparr>, None)"
    by (simp add: two_subs_eq memory_Close_def in_order_def range_fset_listed close_chan_def
        fun_upd_twist both_closed_def)
  have r: "run_ops calls_after_close both_closed NewInMemoryBroker =
     Inr (\<lparr>chans = [0 \<mapsto> \<lparr>buf = [], cap = 10, closed = True\<rparr>,
                     1 \<mapsto> \<lparr>buf = [], cap = 10, closed = True\<rparr>,
                     2 \<mapsto> \<lparr>buf = [7], cap = 10, closed = False\<rparr>], next_chan = 3\<rparr>,
          NewInMemoryBroker,
          [ResSubscribe 2 None, ResPublish None, ResUnsubscribe None])"
    by (simp add: calls_after_close_def both_closed_def memory_Subscribe_def make_chan_def
        NewInMemoryBroker_def memory_PublishUpdate_def range_fset_single select_send_def
        send_ready_def do_send_def in_order_def memory_Unsubscribe_def fmdrop_fmupd_same)
  have wf: "registry_wf (fst two_subs) (subscribers (snd two_subs))"
    by (auto simp: two_subs_eq registry_wf_def open_chan_def split: if_splits)
  note inst = Close_is_a_reset[of in_order "fst two_subs" "snd two_subs" both_closed
      "\<lparr>subscribers = fmempty\<rparr>" None calls_after_close]
  have t: "run_ops calls_after_close both_closed \<lparr>subscribers = fmempty\<rparr> =
      run_ops calls_after_close both_closed NewInMemoryBroker"
    by (rule conjunct2[OF conjunct2[OF mp[OF conjunct1[OF inst] c]]])
  have x: "\<exists>hc. memory_Close in_order (fst two_subs) (snd two_subs) =
           Inr (hc, NewInMemoryBroker, None) \<and>
         (\<exists>hf bf rs. run_ops calls_after_close hc NewInMemoryBroker = Inr (hf, bf, rs))"
    by (rule mp[OF conjunct2[OF inst] wf])
  show ?thesis by (rule conjI[OF c conjI[OF t conjI[OF r x]]])
qed

section \<open>Unsubscribing\<close>

lemma fold_delete: "fold (\<lambda>subCh m. m |-| {|subCh|}) xs S = S |-| fset_of_list xs"
  by (induction xs arbitrary: S) auto

lemma delete_all_range:
  "fold (\<lambda>subCh m. m |-| {|subCh|}) (range_fset ord S) S = {||}"
proof -
  have "fset_of_list (range_fset ord S) = S"
    using set_range_fset[of ord S] by (metis fset_of_list.rep_eq fset_inverse)
  then show ?thesis by (simp add: fold_delete)
qed

lemma kfkimp_Unsubscribe_result:
  "kfkimp_Unsubscribe s h k projectID ch =
     (h, (case fmlookup (ksubscribers k) projectID of
            None \<Rightarrow> k
          | Some subs \<Rightarrow> k\<lparr>readers := fmdrop projectID (readers k),
                           ksubscribers := fmdrop projectID (ksubscribers k)\<rparr>), None)"
  by (auto simp: kfkimp_Unsubscribe_def delete_all_range cleanupIfNoSubscribers_def Let_def
      fmdrop_fmupd_same fmdrop_idle' fmdom'_notI split: option.splits)

text \<open>
  Claim C3, as the code has it. \<^verbatim>\<open>Unsubscribe(projectID, ch)\<close> does not look at \<open>ch\<close>. On
  both brokers it removes the whole entry of \<open>projectID\<close> from the subscriber registry,
  that is every channel registered for the project, and leaves the entries of all other
  projects as they were. The durable broker also drops the reader of a project that had
  an entry. It returns \<^verbatim>\<open>nil\<close> and closes no channel: the heap of channels is unchanged.
\<close>

theorem Unsubscribe_drops_the_project:
  "memory_Unsubscribe h b projectID ch =
     (h, b\<lparr>subscribers := fmdrop projectID (subscribers b)\<rparr>, None) \<and>
   fst (kfkimp_Unsubscribe s h k projectID ch) = h \<and>
   ksubscribers (fst (snd (kfkimp_Unsubscribe s h k projectID ch))) =
     fmdrop projectID (ksubscribers k) \<and>
   readers (fst (snd (kfkimp_Unsubscribe s h k projectID ch))) =
     (if projectID |\<in>| fmdom (ksubscribers k) then fmdrop projectID (readers k)
      else readers k) \<and>
   snd (snd (kfkimp_Unsubscribe s h k projectID ch)) = None"
  by (auto simp: memory_Unsubscribe_def kfkimp_Unsubscribe_result fmdrop_idle' fmdom'_notI
      fmlookup_dom_iff split: option.splits)

text \<open>
  Claim C3 as stated fails. Project p1 has the two subscribers 0 and 1. After
  \<^verbatim>\<open>Unsubscribe("p1", 0)\<close> channel 1 is not registered any more, and an update published
  to p1 afterwards reaches no channel: the heap stays as it was. This is so on the
  in-process broker and on the durable broker.
\<close>

theorem Unsubscribe_removes_other_channels:
  "fmlookup (subscribers (snd two_subs)) ''p1'' = Some {|0, 1|} \<and>
   fmlookup (subscribers (fst (snd (memory_Unsubscribe (fst two_subs) (snd two_subs) ''p1'' 0))))
      ''p1'' = None \<and>
   memory_PublishUpdate in_order (fst two_subs)
      (fst (snd (memory_Unsubscribe (fst two_subs) (snd two_subs) ''p1'' 0))) ''p1'' 7 =
     Inr (fst two_subs, NewInMemoryBroker, None) \<and>
   fmlookup (ksubscribers (snd two_ksubs)) ''p1'' = Some {|0, 1|} \<and>
   fmlookup (ksubscribers (fst (snd (kfkimp_Unsubscribe in_order (fst two_ksubs) (snd two_ksubs)
      ''p1'' 0)))) ''p1'' = None \<and>
   distributeUpdate in_order (fst two_ksubs)
      (fst (snd (kfkimp_Unsubscribe in_order (fst two_ksubs) (snd two_ksubs) ''p1'' 0))) ''p1'' 7 =
     Inr (fst two_ksubs)"
  by (auto simp: two_subs_eq two_ksubs_eq memory_Unsubscribe_def memory_PublishUpdate_def
      NewInMemoryBroker_def kfkimp_Unsubscribe_result distributeUpdate_def fmdrop_fmupd_same)

section \<open>Entries of the registry\<close>



text \<open>
  Every other operation keeps the registry free of empty entries: on the in-process
  broker all of them, on the durable broker \<^verbatim>\<open>Subscribe\<close> and \<^verbatim>\<open>Unsubscribe\<close>.
\<close>

lemma memory_Subscribe_no_dangling:
  assumes "no_dangling (subscribers b)" and "memory_Subscribe h b projectID = (h', b', c, e)"
  shows "no_dangling (subscribers b')"
  using assms
  by (auto simp: no_dangling_def memory_Subscribe_def make_chan_def split: if_splits)

lemma memory_Unsubscribe_no_dangling:
  assumes "no_dangling (subscribers b)" and "memory_Unsubscribe h b projectID ch = (h', b', e)"
  shows "no_dangling (subscribers b')"
  using assms by (auto simp: no_dangling_def memory_Unsubscribe_def split: if_splits)

lemma memory_Close_no_dangling:
  assumes "memory_Close s h b = Inr (h', b', e)"
  shows "no_dangling (subscribers b')"
  using memory_Close_result[OF assms] by (simp add: no_dangling_def NewInMemoryBroker_def)

lemma run_ops_no_dangling:
  "run_ops ops h b = Inr (hf, bf, rs) \<Longrightarrow> no_dangling (subscribers b) \<Longrightarrow>
     no_dangling (subscribers bf)"
proof (induction ops arbitrary: h b rs)
  case Nil
  then show ?case by simp
next
  case (Cons op ops)
  show ?case
  proof (cases op)
    case (OpSubscribe projectID)
    obtain h' b' ch e where sub: "memory_Subscribe h b projectID = (h', b', ch, e)"
      by (metis prod_cases4)
    obtain rs' where "run_ops ops h' b' = Inr (hf, bf, rs')"
      using Cons.prems(1) sub OpSubscribe by (auto split: sum.splits)
    then show ?thesis
      using Cons.IH memory_Subscribe_no_dangling[OF Cons.prems(2) sub] by blast
  next
    case (OpPublish s projectID u)
    obtain h' b' e rs' where pub: "memory_PublishUpdate s h b projectID u = Inr (h', b', e)"
      and rest: "run_ops ops h' b' = Inr (hf, bf, rs')"
      using Cons.prems(1) OpPublish by (auto split: sum.splits)
    have "b' = b" using memory_PublishUpdate_broker[OF pub] .
    then show ?thesis using Cons.IH[OF rest] Cons.prems(2) by simp
  next
    case (OpUnsubscribe projectID ch)
    obtain h' b' e where un: "memory_Unsubscribe h b projectID ch = (h', b', e)"
      by (metis prod_cases3)
    obtain rs' where "run_ops ops h' b' = Inr (hf, bf, rs')"
      using Cons.prems(1) un OpUnsubscribe by (auto split: sum.splits)
    then show ?thesis
      using Cons.IH memory_Unsubscribe_no_dangling[OF Cons.prems(2) un] by blast
  qed
qed

lemma kfkimp_Subscribe_no_dangling:
  assumes "no_dangling (ksubscribers k)" and "kfkimp_Subscribe h k projectID = (h', k', c, e)"
  shows "no_dangling (ksubscribers k')"
  using assms
  by (auto simp: no_dangling_def kfkimp_Subscribe_def make_chan_def Let_def
      split: option.splits if_splits)

lemma kfkimp_Unsubscribe_no_dangling:
  assumes "no_dangling (ksubscribers k)"
    and "kfkimp_Unsubscribe s h k projectID ch = (h', k', e)"
  shows "no_dangling (ksubscribers k')"
  using assms
  by (auto simp: no_dangling_def kfkimp_Unsubscribe_result split: option.splits if_splits)

section \<open>Building the durable broker\<close>

lemma Split_nonempty: "Split s sep \<noteq> []"
  by (induction s) (auto split: list.splits)

lemma create_topic_loop_unreachable:
  "list_all (\<lambda>a. Dial env a \<noteq> None) bs \<Longrightarrow>
     create_topic_loop env t bs = (False, replicate (length bs) ''Could not connect to Kafka broker'')"
  by (induction bs) (auto split: option.splits)

lemma NewKafkaBroker_result:
  "\<exists>lg. NewKafkaBroker env bs pre =
     (Some \<lparr>writer = \<lparr>w_brokers = bs, w_topic = pre @ ''.projects''\<rparr>, readers = fmempty,
            ksubscribers = fmempty, brokers = bs, topicPrefix = pre, cancelled = False\<rparr>,
      None, lg) \<and>
     (list_all (\<lambda>a. Dial env a \<noteq> None) bs \<longrightarrow>
        lg = replicate (length bs) ''Could not connect to Kafka broker''
             @ [''Could not create topic - will try again when publishing''])"
  by (auto simp: NewKafkaBroker_def Let_def create_topic_loop_unreachable split: prod.splits)

text \<open>
  Claim C1, as the code has it. Whenever the configuration selects Kafka, the factory
  returns a broker and the error \<^verbatim>\<open>nil\<close>, whatever the cluster answers: construction
  has no failing path. The broker is complete: it has its writer for the topic, at
  least one node address, empty reader and subscriber maps, and a context that is not
  cancelled. When no configured node can be reached, the factory logs one warning for
  every node and the warning that the topic will be created when publishing.
\<close>

theorem factory_always_builds_kafka:
  assumes "ToLower (getenv ''COMMUNICATION_METHOD'') = ''kafka''"
  shows "\<exists>k lg. NewMessageBroker getenv env = (Some (Kafka k), None, lg) \<and>
           brokers k \<noteq> [] \<and> topicPrefix k \<noteq> [] \<and>
           writer k = \<lparr>w_brokers = brokers k, w_topic = topicPrefix k @ ''.projects''\<rparr> \<and>
           readers k = fmempty \<and> ksubscribers k = fmempty \<and> \<not> cancelled k \<and>
           (list_all (\<lambda>a. Dial env a \<noteq> None) (brokers k) \<longrightarrow>
              lg = replicate (length (brokers k)) ''Could not connect to Kafka broker''
                   @ [''Could not create topic - will try again when publishing''])"
proof -
  let ?bs = "Split (if getenv ''KAFKA_BROKERS'' = [] then ''localhost:9092''
                    else getenv ''KAFKA_BROKERS'') CHR '',''"
  let ?pre = "if getenv ''KAFKA_TOPIC_PREFIX'' = [] then ''issue-tracker''
              else getenv ''KAFKA_TOPIC_PREFIX''"
  from NewKafkaBroker_result[of env ?bs ?pre] obtain lg where
    lg: "NewKafkaBroker env ?bs ?pre =
     (Some \<lparr>writer = \<lparr>w_brokers = ?bs, w_topic = ?pre @ ''.projects''\<rparr>, readers = fmempty,
            ksubscribers = fmempty, brokers = ?bs, topicPrefix = ?pre, cancelled = False\<rparr>,
      None, lg)"
    "list_all (\<lambda>a. Dial env a \<noteq> None) ?bs \<longrightarrow>
        lg = replicate (length ?bs) ''Could not connect to Kafka broker''
             @ [''Could not create topic - will try again when publishing'']"
    by blast
  have "?pre \<noteq> []" by simp
  then show ?thesis
    using assms lg Split_nonempty[of _ "CHR '',''"]
    by (simp add: NewMessageBroker_def Let_def)
qed

lemma ToLower_Kafka: "ToLower ''Kafka'' = ''kafka''"
  by code_simp

lemma Split_two: "Split ''kafka-1:9092,kafka-2:9092'' CHR '','' = [''kafka-1:9092'', ''kafka-2:9092'']"
  by simp

text \<open>
  Claim C1 as stated fails. The configuration selects Kafka with two nodes and neither
  can be reached; the factory returns a broker, no error, and three warnings.
\<close>

theorem unreachable_cluster_still_gives_broker:
  "list_all (\<lambda>a. Dial no_node a \<noteq> None) [''kafka-1:9092'', ''kafka-2:9092''] \<and>
   NewMessageBroker kafka_getenv no_node =
     (Some (Kafka \<lparr>writer = \<lparr>w_brokers = [''kafka-1:9092'', ''kafka-2:9092''],
                             w_topic = ''issue-tracker.projects''\<rparr>,
                   readers = fmempty, ksubscribers = fmempty,
                   brokers = [''kafka-1:9092'', ''kafka-2:9092''],
                   topicPrefix = ''issue-tracker'', cancelled = False\<rparr>),
      None,
      [''Could not connect to Kafka broker'', ''Could not connect to Kafka broker'',
       ''Could not create topic - will try again when publishing''])"
  by (simp add: NewMessageBroker_def kafka_getenv_def ToLower_Kafka NewKafkaBroker_def no_node_def)


text \<open>
  The theorem at that configuration and cluster.
\<close>

theorem factory_always_builds_kafka_witness:
  "ToLower (kafka_getenv ''COMMUNICATION_METHOD'') = ''kafka'' \<and>
   (\<exists>k lg. NewMessageBroker kafka_getenv no_node = (Some (Kafka k), None, lg) \<and>
      brokers k = [''kafka-1:9092'', ''kafka-2:9092''] \<and>
      readers k = fmempty \<and> ksubscribers k = fmempty \<and>
      lg = [''Could not connect to Kafka broker'', ''Could not connect to Kafka broker'',
            ''Could not create topic - will try again when publishing''])"
proof -
  have sel: "ToLower (kafka_getenv ''COMMUNICATION_METHOD'') = ''kafka''"
    by (simp add: kafka_getenv_def ToLower_Kafka)
  from factory_always_builds_kafka[of kafka_getenv no_node, OF sel] obtain k lg where
    k: "NewMessageBroker kafka_getenv no_node = (Some (Kafka k), None, lg)"
      "readers k = fmempty" "ksubscribers k = fmempty"
      "list_all (\<lambda>a. Dial no_node a \<noteq> None) (brokers k) \<longrightarrow>
         lg = replicate (length (brokers k)) ''Could not connect to Kafka broker''
              @ [''Could not create topic - will try again when publishing'']"
    by blast
  have b: "brokers k = [''kafka-1:9092'', ''kafka-2:9092'']"
    using k(1) by (auto simp: NewMessageBroker_def kafka_getenv_def ToLower_Kafka NewKafkaBroker_def
        Let_def split: prod.splits)
  have "list_all (\<lambda>a. Dial no_node a \<noteq> None) (brokers k)"
    by (simp add: b no_node_def)
  then have "lg = [''Could not connect to Kafka broker'', ''Could not connect to Kafka broker'',
            ''Could not create topic - will try again when publishing'']"
    using k(4) b by (simp add: numeral_2_eq_2)
  then show ?thesis using sel k b by blast
qed

section \<open>Publishing on the durable broker\<close>




lemma show_port: "show_int 9092 = ''9092''"
  by (simp add: show_int_def)


text \<open>
  \<^verbatim>\<open>createTopicAndRetry\<close> also gives up when the controller answers that the topic
  already exists, although the retry would succeed; \<^verbatim>\<open>NewKafkaBroker\<close> takes that answer
  for success.
\<close>

lemma no_retry_when_topic_already_exists:
  "WriteMessages topic_exists 1 ''p1'' ''x'' = None \<and>
   kfkimp_PublishUpdate topic_exists fresh_kafka ''p1'' 1 =
     Inr (Some ''failed to write message to Kafka: [3] Unknown Topic Or Partition'',
          [(''p1'', ''x'')])"
  by (simp add: topic_exists_def fresh_kafka_def kfkimp_PublishUpdate_def handlePublishError_def
      createTopicAndRetry_def)


section \<open>The stream coordinator: subscribing again\<close>












lemma stream_mode: "\<not> commMethodKafka stream_getenv"
  by (simp add: commMethodKafka_def stream_getenv_def)









section \<open>The stream coordinator: the end of a session\<close>

text \<open>
  Claim C2 on a session without Kafka that subscribed to p1. When the client closes the
  stream (\<^verbatim>\<open>io.EOF\<close> arrives on \<^verbatim>\<open>errCh\<close>) or the context is cancelled, whether
  \<^verbatim>\<open>handleProjectUpdates\<close> was called before or after the subscribe message,
  \<^verbatim>\<open>handleProjectUpdates\<close> returns without a teardown: the only call the session ever made
  is the one that added its channel. \<^verbatim>\<open>StreamProjectUpdates\<close> then closes the channel,
  which is still registered for p1, and the next notification for p1 panics with a send
  on a closed channel.
\<close>

theorem exit_without_teardown:
  "session_ends stream_getenv codec_only in_order (fresh_world (Kafka fresh_kafka)) ''p1'' True []
     (EvErrCh None) = Inr left_registered \<and>
   session_ends stream_getenv codec_only in_order (fresh_world (Kafka fresh_kafka)) ''p1'' False []
     (EvErrCh None) = Inr left_registered \<and>
   session_ends stream_getenv codec_only in_order (fresh_world (Kafka fresh_kafka)) ''p1'' True []
     (EvCtxDone ''context canceled'') = Inr left_registered \<and>
   session_ends stream_getenv codec_only in_order (fresh_world (Kafka fresh_kafka)) ''p1'' False []
     (EvCtxDone ''context canceled'') = Inr left_registered \<and>
   active_under stream_getenv left_registered (Some 0) ''p1'' \<and>
   notifySubscribers stream_getenv codec_only in_order left_registered ''p1'' issue_added =
     Inl ''send on closed channel''"
  by (simp add: session_ends_def stream_open_def stream_mode make_chan_def fresh_world_def
      empty_heap_def recv_subscribe_def subscribe_cleanup_def subscribe_register_def
      addSubscriber_def handleProjectUpdates_step_def stream_return_def close_chan_def
      left_registered_def active_under_def registered_under_def notifySubscribers_def
      send_ready_def do_send_def)

text \<open>
  The exit on a failed \<^verbatim>\<open>stream.Send\<close> does call \<^verbatim>\<open>removeSubscriber\<close>. It removes the
  channel when \<^verbatim>\<open>handleProjectUpdates\<close> was called after the subscribe message was
  handled; called before, it has the empty project as its argument and removes nothing.
\<close>

lemma send_error_teardown:
  "session_ends stream_getenv codec_only in_order (fresh_world (Kafka fresh_kafka)) ''p1'' False
     [issue_added] (EvUpdate (Some ''transport is closing'')) =
     Inr (left_registered
            \<lparr>w_svc := (w_svc left_registered)\<lparr>svc_subscribers := fmupd ''p1'' [] fmempty\<rparr>,
             w_calls := [CallAddSubscriber ''p1'' (Some 0), CallRemoveSubscriber ''p1'' (Some 0)]\<rparr>) \<and>
   session_ends stream_getenv codec_only in_order (fresh_world (Kafka fresh_kafka)) ''p1'' True
     [issue_added] (EvUpdate (Some ''transport is closing'')) =
     Inr (left_registered
            \<lparr>w_calls := [CallAddSubscriber ''p1'' (Some 0), CallRemoveSubscriber [] (Some 0)]\<rparr>)"
  by (simp add: session_ends_def stream_open_def stream_mode make_chan_def fresh_world_def
      empty_heap_def recv_subscribe_def subscribe_cleanup_def subscribe_register_def
      addSubscriber_def removeSubscriber_def handleProjectUpdates_step_def stream_return_def
      close_chan_def left_registered_def notifySubscribers_def send_ready_def do_send_def
      recv_chan_def)

end
